theory Spec2Isabelle
  imports Main
begin

section \<open>JavaScript primitives used by the handlers\<close>

text \<open>
  Strings are lists of characters. The case conversions of the handlers are modelled on
  the ASCII letters, where JavaScript's \<^verbatim>\<open>toLowerCase\<close> and \<^verbatim>\<open>toUpperCase\<close> map one
  code unit to one code unit; every other character is left unchanged. On a string of
  ASCII characters the two functions below are JavaScript's. Beyond ASCII they are not
  (\<^verbatim>\<open>toUpperCase\<close> maps the sharp s to two letters, for one): a statement that depends
  on the value of a case conversion is made for ASCII strings only.
\<close>

definition isASCII :: "string \<Rightarrow> bool" where
  "isASCII s = list_all (\<lambda>c. (of_char c :: nat) < 128) s"

definition toLowerChar :: "char \<Rightarrow> char" where
  "toLowerChar c =
     (let n = (of_char c :: nat) in if 65 \<le> n \<and> n \<le> 90 then char_of (n + 32) else c)"

definition toUpperChar :: "char \<Rightarrow> char" where
  "toUpperChar c =
     (let n = (of_char c :: nat) in if 97 \<le> n \<and> n \<le> 122 then char_of (n - 32) else c)"

definition toLowerCase :: "string \<Rightarrow> string" where
  "toLowerCase s = map toLowerChar s"

definition toUpperCase :: "string \<Rightarrow> string" where
  "toUpperCase s = map toUpperChar s"

text \<open>\<^verbatim>\<open>s.includes(t)\<close>: \<open>t\<close> occurs in \<open>s\<close> as a contiguous substring.\<close>

fun includes_str :: "string \<Rightarrow> string \<Rightarrow> bool" where
  "includes_str [] t = (t = [])"
| "includes_str (x # xs) t = (take (length t) (x # xs) = t \<or> includes_str xs t)"

text \<open>
  A query parameter is an optional string: \<open>None\<close> is \<^verbatim>\<open>undefined\<close> (the parameter is
  not in the URL). \<^verbatim>\<open>if (p)\<close> holds for a supplied, non-empty string only.
\<close>

definition truthy :: "string option \<Rightarrow> bool" where
  "truthy p = (case p of None \<Rightarrow> False | Some s \<Rightarrow> s \<noteq> [])"

text \<open>\<^verbatim>\<open>x || null\<close> on a nullable string: the empty string becomes \<^verbatim>\<open>null\<close> as well.\<close>

definition orNull :: "string option \<Rightarrow> string option" where
  "orNull x = (if truthy x then x else None)"

subsection \<open>parseInt\<close>

text \<open>
  \<^verbatim>\<open>parseInt(s)\<close> with no radix: leading white space is dropped (the ASCII white
  space: tab, line feed, vertical tab, form feed, carriage return, space), one sign is
  read, a \<^verbatim>\<open>0x\<close> prefix selects radix 16, and the longest prefix of digits is the value.
  With no digit the result is \<^verbatim>\<open>NaN\<close>, which is \<open>None\<close> here. Numbers are integers; the
  rounding of a double beyond \<open>2^53\<close> is not modelled.
\<close>

definition isWhiteSpace :: "char \<Rightarrow> bool" where
  "isWhiteSpace c = ((of_char c :: nat) \<in> {9, 10, 11, 12, 13, 32})"

definition digitValue :: "char \<Rightarrow> nat option" where
  "digitValue c =
     (let n = (of_char c :: nat) in
      if 48 \<le> n \<and> n \<le> 57 then Some (n - 48)
      else if 97 \<le> n \<and> n \<le> 122 then Some (n - 87)
      else if 65 \<le> n \<and> n \<le> 90 then Some (n - 55)
      else None)"

definition isRadixDigit :: "nat \<Rightarrow> char \<Rightarrow> bool" where
  "isRadixDigit R c = (case digitValue c of None \<Rightarrow> False | Some v \<Rightarrow> v < R)"

definition mathInt :: "nat \<Rightarrow> string \<Rightarrow> nat" where
  "mathInt R Z = foldl (\<lambda>a c. a * R + (case digitValue c of None \<Rightarrow> 0 | Some v \<Rightarrow> v)) 0 Z"

definition parseInt :: "string \<Rightarrow> int option" where
  "parseInt str =
     (let S = dropWhile isWhiteSpace str;
          sign = (case S of c # _ \<Rightarrow> if c = CHR ''-'' then - 1 else 1 | [] \<Rightarrow> (1::int));
          S1 = (case S of c # cs \<Rightarrow> if c = CHR ''+'' \<or> c = CHR ''-'' then cs else S | [] \<Rightarrow> S);
          hex = (take 2 S1 = ''0x'' \<or> take 2 S1 = ''0X'');
          R = (if hex then 16 else 10);
          S2 = (if hex then drop 2 S1 else S1);
          Z = takeWhile (isRadixDigit R) S2
      in if Z = [] then None else Some (sign * int (mathInt R Z)))"

subsection \<open>Numbers that may be NaN\<close>

definition js_add :: "int option \<Rightarrow> int option \<Rightarrow> int option" where
  "js_add a b = (case (a, b) of (Some x, Some y) \<Rightarrow> Some (x + y) | _ \<Rightarrow> None)"

definition js_less :: "int option \<Rightarrow> int \<Rightarrow> bool" where
  "js_less a b = (case a of None \<Rightarrow> False | Some x \<Rightarrow> x < b)"

subsection \<open>Array.prototype.slice\<close>

text \<open>
  \<^verbatim>\<open>xs.slice(start, end)\<close>: each bound is made an integer (\<^verbatim>\<open>NaN\<close> becomes 0), a
  negative bound counts from the end, and both are clamped to \<open>[0, length]\<close>.
\<close>

definition toIntegerOrInfinity :: "int option \<Rightarrow> int" where
  "toIntegerOrInfinity n = (case n of None \<Rightarrow> 0 | Some i \<Rightarrow> i)"

definition relativeIndex :: "int \<Rightarrow> nat \<Rightarrow> nat" where
  "relativeIndex i len = (if i < 0 then nat (max (int len + i) 0) else min (nat i) len)"

definition slice :: "'a list \<Rightarrow> int option \<Rightarrow> int option \<Rightarrow> 'a list" where
  "slice xs start end =
     (let len = length xs;
          k = relativeIndex (toIntegerOrInfinity start) len;
          final = relativeIndex (toIntegerOrInfinity end) len
      in take (final - k) (drop k xs))"

section \<open>Data model\<close>

text \<open>
  The four datasets, typed as the data model has them: the lists of a channel are always
  lists, a nullable field is an option. Field names carry a prefix per record.
\<close>

record channel =
  ch_id :: string
  ch_name :: string
  ch_alt_names :: "string list"
  ch_country :: "string option"
  ch_categories :: "string list"
  ch_network :: "string option"
  ch_owners :: "string list"
  ch_website :: "string option"
  ch_is_nsfw :: bool
  ch_launched :: "string option"
  ch_closed :: "string option"
  ch_replaced_by :: "string option"

record stream =
  st_channel :: "string option"
  st_feed :: "string option"
  st_url :: string
  st_quality :: "string option"
  st_title :: "string option"
  st_referrer :: "string option"
  st_user_agent :: "string option"

record logo =
  lg_channel :: "string option"
  lg_feed :: "string option"
  lg_url :: string
  lg_width :: nat
  lg_height :: nat
  lg_format :: "string option"
  lg_tags :: "string list"

record country =
  co_code :: string
  co_name :: string
  co_flag :: string
  co_languages :: "string list"

record 'b response =
  status :: nat
  body :: 'b

section \<open>Enrichment of the channels endpoint and of the strict search endpoint\<close>

text \<open>
  \<^verbatim>\<open>api/channels.js\<close> (lines 35 to 68) and the strict search handler (lines 63 to 93) build
  the same object from a channel, with the same three lookups.
\<close>

record stream_view =
  sv_url :: string
  sv_quality :: "string option"
  sv_title :: "string option"
  sv_referrer :: "string option"

record enriched =
  en_id :: string
  en_name :: string
  en_alt_names :: "string list"
  en_country :: "string option"
  en_country_name :: "string option"
  en_country_flag :: "string option"
  en_categories :: "string list"
  en_network :: "string option"
  en_website :: "string option"
  en_is_nsfw :: bool
  en_logo :: "string option"
  en_streams :: "stream_view list"

definition channelStreams :: "stream list \<Rightarrow> channel \<Rightarrow> stream list" where
  "channelStreams streams channel =
     filter (\<lambda>stream. st_channel stream = Some (ch_id channel)
                     \<or> st_feed stream = Some (ch_id channel)) streams"

definition channelLogo :: "logo list \<Rightarrow> channel \<Rightarrow> logo option" where
  "channelLogo logos channel =
     (case find (\<lambda>logo. lg_channel logo = Some (ch_id channel) \<and> \<not> truthy (lg_feed logo)) logos of
        Some l \<Rightarrow> Some l
      | None \<Rightarrow> find (\<lambda>logo. lg_channel logo = Some (ch_id channel)) logos)"

definition countryInfo :: "country list \<Rightarrow> channel \<Rightarrow> country option" where
  "countryInfo countries channel = find (\<lambda>c. Some (co_code c) = ch_country channel) countries"

definition stream_view_of :: "stream \<Rightarrow> stream_view" where
  "stream_view_of stream =
     \<lparr>sv_url = st_url stream, sv_quality = st_quality stream,
      sv_title = st_title stream, sv_referrer = st_referrer stream\<rparr>"

definition enrich :: "stream list \<Rightarrow> logo list \<Rightarrow> country list \<Rightarrow> channel \<Rightarrow> enriched" where
  "enrich streams logos countries channel =
     \<lparr>en_id = ch_id channel,
      en_name = ch_name channel,
      en_alt_names = ch_alt_names channel,
      en_country = ch_country channel,
      en_country_name = map_option co_name (countryInfo countries channel),
      en_country_flag = map_option co_flag (countryInfo countries channel),
      en_categories = ch_categories channel,
      en_network = ch_network channel,
      en_website = ch_website channel,
      en_is_nsfw = ch_is_nsfw channel,
      en_logo = map_option lg_url (channelLogo logos channel),
      en_streams = map stream_view_of (channelStreams streams channel)\<rparr>"

subsection \<open>The remote datasets\<close>

text \<open>
  Both handlers fetch the four datasets from the remote host. A fetch that fails, or a
  body that is not JSON, throws; the dataset is \<open>None\<close> then. A handler returns its
  response together with the URLs it has requested.
\<close>

record upstream =
  up_channels :: "channel list option"
  up_streams :: "stream list option"
  up_logos :: "logo list option"
  up_countries :: "country list option"

definition channels_url :: string where
  "channels_url = ''https://iptv-org.github.io/api/channels.json''"

definition streams_url :: string where
  "streams_url = ''https://iptv-org.github.io/api/streams.json''"

definition logos_url :: string where
  "logos_url = ''https://iptv-org.github.io/api/logos.json''"

definition countries_url :: string where
  "countries_url = ''https://iptv-org.github.io/api/countries.json''"

section \<open>The channels endpoint (api/channels.js)\<close>

record channels_query =
  cq_country :: "string option"
  cq_search :: "string option"
  cq_category :: "string option"
  cq_limit :: "string option"

datatype channels_body =
  ChEmpty
| ChError string
| ChOk (ch_data: "enriched list") (ch_total: nat)

definition channels_country_filter :: "string option \<Rightarrow> enriched list \<Rightarrow> enriched list" where
  "channels_country_filter country filteredChannels =
     (case country of
        None \<Rightarrow> filteredChannels
      | Some c \<Rightarrow>
          if c = [] then filteredChannels
          else filter (\<lambda>channel. en_country channel = Some (toUpperCase c)) filteredChannels)"

definition channels_search_filter :: "string option \<Rightarrow> enriched list \<Rightarrow> enriched list" where
  "channels_search_filter search filteredChannels =
     (case search of
        None \<Rightarrow> filteredChannels
      | Some s \<Rightarrow>
          if s = [] then filteredChannels
          else filter (\<lambda>channel.
                 includes_str (toLowerCase (en_name channel)) (toLowerCase s)
                 \<or> list_ex (\<lambda>alt. includes_str (toLowerCase alt) (toLowerCase s))
                      (en_alt_names channel)) filteredChannels)"

definition channels_category_filter :: "string option \<Rightarrow> enriched list \<Rightarrow> enriched list" where
  "channels_category_filter category filteredChannels =
     (case category of
        None \<Rightarrow> filteredChannels
      | Some c \<Rightarrow>
          if c = [] then filteredChannels
          else filter (\<lambda>channel. toLowerCase c \<in> set (en_categories channel)) filteredChannels)"

text \<open>
  \<^verbatim>\<open>limit = 50\<close> in the destructuring applies to a missing parameter only;
  \<^verbatim>\<open>parseInt(50)\<close> reads the number through its decimal string.
\<close>

definition channels_limit :: "string option \<Rightarrow> int option" where
  "channels_limit limit = parseInt (case limit of None \<Rightarrow> ''50'' | Some l \<Rightarrow> l)"

definition channels_pipeline ::
  "channels_query \<Rightarrow> channel list \<Rightarrow> stream list \<Rightarrow> logo list \<Rightarrow> country list \<Rightarrow> enriched list" where
  "channels_pipeline query channels streams logos countries =
     (let enrichedChannels = map (enrich streams logos countries) channels;
          filteredChannels = channels_country_filter (cq_country query) enrichedChannels;
          filteredChannels = channels_search_filter (cq_search query) filteredChannels;
          filteredChannels = channels_category_filter (cq_category query) filteredChannels
      in slice filteredChannels (Some 0) (channels_limit (cq_limit query)))"

definition internal_error :: "channels_body response" where
  "internal_error = \<lparr>status = 500, body = ChError ''Internal server error''\<rparr>"

text \<open>The four fetches are awaited one after the other: the first failure ends them.\<close>

definition channels_handler ::
  "string \<Rightarrow> channels_query \<Rightarrow> upstream \<Rightarrow> channels_body response \<times> string list" where
  "channels_handler meth query up =
     (if meth = ''OPTIONS'' then (\<lparr>status = 200, body = ChEmpty\<rparr>, [])
      else case up_channels up of
        None \<Rightarrow> (internal_error, [channels_url])
      | Some channels \<Rightarrow>
     (case up_streams up of
        None \<Rightarrow> (internal_error, [channels_url, streams_url])
      | Some streams \<Rightarrow>
     (case up_logos up of
        None \<Rightarrow> (internal_error, [channels_url, streams_url, logos_url])
      | Some logos \<Rightarrow>
     (case up_countries up of
        None \<Rightarrow> (internal_error, [channels_url, streams_url, logos_url, countries_url])
      | Some countries \<Rightarrow>
          (let filteredChannels = channels_pipeline query channels streams logos countries
           in (\<lparr>status = 200, body = ChOk filteredChannels (length filteredChannels)\<rparr>,
               [channels_url, streams_url, logos_url, countries_url]))))))"

section \<open>The strict search endpoint\<close>

record strict_query =
  sq_q :: "string option"
  sq_country :: "string option"
  sq_category :: "string option"
  sq_limit :: "string option"

datatype strict_body =
  StEmpty
| StError string
| StOk (st_query: string) (st_data: "enriched list") (st_total: nat)

definition strict_text_filter :: "string \<Rightarrow> channel list \<Rightarrow> channel list" where
  "strict_text_filter q channels =
     filter (\<lambda>channel.
        includes_str (toLowerCase (ch_name channel)) (toLowerCase q)
        \<or> list_ex (\<lambda>alt. includes_str (toLowerCase alt) (toLowerCase q))
             (ch_alt_names channel)) channels"

definition strict_country_filter :: "string option \<Rightarrow> channel list \<Rightarrow> channel list" where
  "strict_country_filter country results =
     (case country of
        None \<Rightarrow> results
      | Some c \<Rightarrow>
          if c = [] then results
          else filter (\<lambda>channel. ch_country channel = Some (toUpperCase c)) results)"

definition strict_category_filter :: "string option \<Rightarrow> channel list \<Rightarrow> channel list" where
  "strict_category_filter category results =
     (case category of
        None \<Rightarrow> results
      | Some c \<Rightarrow>
          if c = [] then results
          else filter (\<lambda>channel. toLowerCase c \<in> set (ch_categories channel)) results)"

definition strict_limit :: "string option \<Rightarrow> int option" where
  "strict_limit limit = parseInt (case limit of None \<Rightarrow> ''20'' | Some l \<Rightarrow> l)"

definition strict_results :: "string \<Rightarrow> strict_query \<Rightarrow> channel list \<Rightarrow> channel list" where
  "strict_results q query channels =
     strict_category_filter (sq_category query)
       (strict_country_filter (sq_country query) (strict_text_filter q channels))"

definition strict_pipeline ::
  "string \<Rightarrow> strict_query \<Rightarrow> channel list \<Rightarrow> stream list \<Rightarrow> logo list \<Rightarrow> country list
     \<Rightarrow> enriched list" where
  "strict_pipeline q query channels streams logos countries =
     map (enrich streams logos countries)
       (slice (strict_results q query channels) (Some 0) (strict_limit (sq_limit query)))"

definition all_urls :: "string list" where
  "all_urls = [channels_url, streams_url, logos_url, countries_url]"

text \<open>
  The four fetches are started together: once the query is accepted all four URLs are
  requested, and the failure of any of them is the 500 response.
\<close>

definition strict_handler ::
  "string \<Rightarrow> strict_query \<Rightarrow> upstream \<Rightarrow> strict_body response \<times> string list" where
  "strict_handler meth query up =
     (if meth = ''OPTIONS'' then (\<lparr>status = 200, body = StEmpty\<rparr>, [])
      else case sq_q query of
        None \<Rightarrow> (\<lparr>status = 400, body = StError ''Search query (q) is required''\<rparr>, [])
      | Some q \<Rightarrow>
          if q = [] then (\<lparr>status = 400, body = StError ''Search query (q) is required''\<rparr>, [])
          else (case (up_channels up, up_streams up, up_logos up, up_countries up) of
              (Some channels, Some streams, Some logos, Some countries) \<Rightarrow>
                (let enrichedResults = strict_pipeline q query channels streams logos countries
                 in (\<lparr>status = 200, body = StOk q enrichedResults (length enrichedResults)\<rparr>,
                     all_urls))
            | _ \<Rightarrow> (\<lparr>status = 500, body = StError ''Internal server error''\<rparr>, all_urls)))"

section \<open>The advanced search endpoint (api/search.js)\<close>

text \<open>
  The datasets are bundled with the handler; they are parameters here. With the lists
  of a channel typed as lists, \<^verbatim>\<open>x || []\<close> and the optional chaining on them change
  nothing, and no statement of the \<^verbatim>\<open>try\<close> block throws.
\<close>

record stream_out =
  so_title :: "string option"
  so_url :: string
  so_quality :: "string option"
  so_referrer :: "string option"
  so_userAgent :: "string option"
  so_feed :: "string option"

record logo_out =
  lo_url :: string
  lo_width :: nat
  lo_height :: nat
  lo_format :: "string option"
  lo_tags :: "string list"
  lo_feed :: "string option"

record result =
  r_id :: string
  r_name :: string
  r_alternativeNames :: "string list"
  r_network :: "string option"
  r_owners :: "string list"
  r_country :: "string option"
  r_categories :: "string list"
  r_isNsfw :: bool
  r_launched :: "string option"
  r_closed :: "string option"
  r_replacedBy :: "string option"
  r_website :: "string option"
  r_streamCount :: nat
  r_logoCount :: nat
  r_streams :: "stream_out list"
  r_logos :: "logo_out list"

record adv_query =
  aq_q :: "string option"
  aq_country :: "string option"
  aq_category :: "string option"
  aq_nsfw :: "string option"
  aq_hasStreams :: "string option"
  aq_limit :: "string option"
  aq_offset :: "string option"

record pagination =
  pg_total :: nat
  pg_limit :: "int option"
  pg_offset :: "int option"
  pg_hasMore :: bool

record query_echo =
  qe_search :: "string option"
  qe_country :: "string option"
  qe_category :: "string option"
  qe_nsfw :: "string option"
  qe_hasStreams :: "string option"

datatype adv_body =
  AdvEmpty
| AdvOk (adv_timestamp: string) (adv_pagination: pagination) (adv_query: query_echo)
    (adv_data: "result list")

definition adv_channelStreams :: "stream list \<Rightarrow> channel \<Rightarrow> stream list" where
  "adv_channelStreams streams channel =
     filter (\<lambda>s. st_channel s = Some (ch_id channel)) streams"

definition adv_channelLogos :: "logo list \<Rightarrow> channel \<Rightarrow> logo list" where
  "adv_channelLogos logos channel =
     filter (\<lambda>l. lg_channel l = Some (ch_id channel)) logos"

definition stream_out_of :: "stream \<Rightarrow> stream_out" where
  "stream_out_of stream =
     \<lparr>so_title = orNull (st_title stream),
      so_url = st_url stream,
      so_quality = orNull (st_quality stream),
      so_referrer = orNull (st_referrer stream),
      so_userAgent = orNull (st_user_agent stream),
      so_feed = orNull (st_feed stream)\<rparr>"

definition logo_out_of :: "logo \<Rightarrow> logo_out" where
  "logo_out_of logo =
     \<lparr>lo_url = lg_url logo,
      lo_width = lg_width logo,
      lo_height = lg_height logo,
      lo_format = orNull (lg_format logo),
      lo_tags = lg_tags logo,
      lo_feed = orNull (lg_feed logo)\<rparr>"

definition to_result :: "stream list \<Rightarrow> logo list \<Rightarrow> channel \<Rightarrow> result" where
  "to_result streams logos channel =
     (let channelStreams = adv_channelStreams streams channel;
          channelLogos = adv_channelLogos logos channel
      in \<lparr>r_id = ch_id channel,
          r_name = ch_name channel,
          r_alternativeNames = ch_alt_names channel,
          r_network = orNull (ch_network channel),
          r_owners = ch_owners channel,
          r_country = orNull (ch_country channel),
          r_categories = ch_categories channel,
          r_isNsfw = ch_is_nsfw channel,
          r_launched = orNull (ch_launched channel),
          r_closed = orNull (ch_closed channel),
          r_replacedBy = orNull (ch_replaced_by channel),
          r_website = orNull (ch_website channel),
          r_streamCount = length channelStreams,
          r_logoCount = length channelLogos,
          r_streams = map stream_out_of channelStreams,
          r_logos = map logo_out_of channelLogos\<rparr>)"

definition adv_text_filter :: "string option \<Rightarrow> result list \<Rightarrow> result list" where
  "adv_text_filter q results =
     (case q of
        None \<Rightarrow> results
      | Some s \<Rightarrow>
          if s = [] then results
          else filter (\<lambda>c.
                 includes_str (toLowerCase (r_name c)) (toLowerCase s)
                 \<or> list_ex (\<lambda>name. includes_str (toLowerCase name) (toLowerCase s))
                      (r_alternativeNames c)
                 \<or> (case r_network c of
                       None \<Rightarrow> False
                     | Some n \<Rightarrow> includes_str (toLowerCase n) (toLowerCase s))
                 \<or> list_ex (\<lambda>owner. includes_str (toLowerCase owner) (toLowerCase s))
                      (r_owners c)) results)"

definition adv_country_filter :: "string option \<Rightarrow> result list \<Rightarrow> result list" where
  "adv_country_filter country results =
     (case country of
        None \<Rightarrow> results
      | Some p \<Rightarrow>
          if p = [] then results
          else filter (\<lambda>c. case r_country c of
                              None \<Rightarrow> False
                            | Some s \<Rightarrow> toLowerCase s = toLowerCase p) results)"

definition adv_category_filter :: "string option \<Rightarrow> result list \<Rightarrow> result list" where
  "adv_category_filter category results =
     (case category of
        None \<Rightarrow> results
      | Some p \<Rightarrow>
          if p = [] then results
          else filter (\<lambda>c. list_ex (\<lambda>cat. toLowerCase cat = toLowerCase p) (r_categories c))
                 results)"

definition adv_nsfw_filter :: "string option \<Rightarrow> result list \<Rightarrow> result list" where
  "adv_nsfw_filter nsfw results =
     (case nsfw of
        None \<Rightarrow> results
      | Some v \<Rightarrow> filter (\<lambda>c. r_isNsfw c = (v = ''true'')) results)"

definition adv_hasStreams_filter :: "string option \<Rightarrow> result list \<Rightarrow> result list" where
  "adv_hasStreams_filter hasStreams results =
     (if hasStreams = Some ''true'' then filter (\<lambda>c. r_streamCount c > 0) results
      else results)"

text \<open>
  \<^verbatim>\<open>results.sort((a, b) => b.streamCount - a.streamCount)\<close> is a stable sort on the
  stream count, largest first.
\<close>

definition sort_by_streamCount :: "result list \<Rightarrow> result list" where
  "sort_by_streamCount results = sort_key (\<lambda>c. - int (r_streamCount c)) results"

definition adv_filtered :: "adv_query \<Rightarrow> channel list \<Rightarrow> stream list \<Rightarrow> logo list \<Rightarrow> result list" where
  "adv_filtered query channels streams logos =
     sort_by_streamCount
       (adv_hasStreams_filter (aq_hasStreams query)
         (adv_nsfw_filter (aq_nsfw query)
           (adv_category_filter (aq_category query)
             (adv_country_filter (aq_country query)
               (adv_text_filter (aq_q query)
                 (map (to_result streams logos) channels))))))"

definition adv_limit :: "string option \<Rightarrow> int option" where
  "adv_limit limit = parseInt (case limit of None \<Rightarrow> ''50'' | Some l \<Rightarrow> l)"

definition adv_offset :: "string option \<Rightarrow> int option" where
  "adv_offset offset = parseInt (case offset of None \<Rightarrow> ''0'' | Some v \<Rightarrow> v)"

definition adv_handler ::
  "string \<Rightarrow> string \<Rightarrow> adv_query \<Rightarrow> channel list \<Rightarrow> stream list \<Rightarrow> logo list
     \<Rightarrow> adv_body response" where
  "adv_handler now meth query channels streams logos =
     (if meth = ''OPTIONS'' then \<lparr>status = 200, body = AdvEmpty\<rparr>
      else
        (let results = adv_filtered query channels streams logos;
             total = length results;
             parsedLimit = adv_limit (aq_limit query);
             parsedOffset = adv_offset (aq_offset query);
             results = slice results parsedOffset (js_add parsedOffset parsedLimit)
         in \<lparr>status = 200,
             body = AdvOk now
               \<lparr>pg_total = total, pg_limit = parsedLimit, pg_offset = parsedOffset,
                pg_hasMore = js_less (js_add parsedOffset parsedLimit) (int total)\<rparr>
               \<lparr>qe_search = orNull (aq_q query),
                qe_country = orNull (aq_country query),
                qe_category = orNull (aq_category query),
                qe_nsfw = orNull (aq_nsfw query),
                qe_hasStreams = orNull (aq_hasStreams query)\<rparr>
               results\<rparr>))"

section \<open>The categories endpoint (api/categories.js)\<close>

text \<open>
  \<^verbatim>\<open>categoryMap\<close> is a \<^verbatim>\<open>Map\<close>, which keeps its keys in insertion order: an association
  list, a new key going to the end. The entry object is mutated in place; here the entry
  of the key is replaced. The categories of a channel are a list, so the guard
  \<^verbatim>\<open>channel.categories && Array.isArray(channel.categories)\<close> holds for every channel, and
  no statement of the \<^verbatim>\<open>try\<close> block throws. The channels are bundled with the handler;
  they are a parameter here.
\<close>

record channel_ref =
  cr_id :: string
  cr_name :: string
  cr_country :: "string option"

record cat_entry =
  ce_name :: string
  ce_channelCount :: nat
  ce_channels :: "channel_ref list"

record category_out =
  cat_name :: string
  cat_displayName :: string
  cat_channelCount :: nat
  cat_topChannels :: "channel_ref list"

datatype categories_body =
  CatEmpty
| CatOk (cat_timestamp: string) (cat_count: nat) (cat_totalChannels: nat)
    (cat_data: "category_out list")

type_synonym categoryMap = "(string \<times> cat_entry) list"

definition map_has :: "categoryMap \<Rightarrow> string \<Rightarrow> bool" where
  "map_has m k = (map_of m k \<noteq> None)"

fun map_update :: "categoryMap \<Rightarrow> string \<Rightarrow> cat_entry \<Rightarrow> categoryMap" where
  "map_update [] k v = [(k, v)]"
| "map_update ((k', v') # m) k v =
     (if k' = k then (k, v) # m else (k', v') # map_update m k v)"

definition channel_ref_of :: "channel \<Rightarrow> channel_ref" where
  "channel_ref_of channel =
     \<lparr>cr_id = ch_id channel, cr_name = ch_name channel, cr_country = ch_country channel\<rparr>"

definition add_category :: "channel \<Rightarrow> categoryMap \<Rightarrow> string \<Rightarrow> categoryMap" where
  "add_category channel m category =
     (let m1 = (if \<not> map_has m category
                then map_update m category
                       \<lparr>ce_name = category, ce_channelCount = 0, ce_channels = []\<rparr>
                else m)
      in case map_of m1 category of
           None \<Rightarrow> m1
         | Some cat \<Rightarrow>
             map_update m1 category
               (cat\<lparr>ce_channelCount := ce_channelCount cat + 1,
                    ce_channels := ce_channels cat @ [channel_ref_of channel]\<rparr>))"

definition add_channel :: "categoryMap \<Rightarrow> channel \<Rightarrow> categoryMap" where
  "add_channel m channel = foldl (add_category channel) m (ch_categories channel)"

definition build_categoryMap :: "channel list \<Rightarrow> categoryMap" where
  "build_categoryMap channels = foldl add_channel [] channels"

definition displayName :: "string \<Rightarrow> string" where
  "displayName name = toUpperCase (take 1 name) @ drop 1 name"

definition category_out_of :: "cat_entry \<Rightarrow> category_out" where
  "category_out_of cat =
     \<lparr>cat_name = ce_name cat,
      cat_displayName = displayName (ce_name cat),
      cat_channelCount = ce_channelCount cat,
      cat_topChannels = slice (ce_channels cat) (Some 0) (Some 5)\<rparr>"

definition categoriesData :: "channel list \<Rightarrow> category_out list" where
  "categoriesData channels =
     map category_out_of
       (sort_key (\<lambda>cat. - int (ce_channelCount cat)) (map snd (build_categoryMap channels)))"

definition categories_handler :: "string \<Rightarrow> string \<Rightarrow> channel list \<Rightarrow> categories_body response" where
  "categories_handler now meth channels =
     (if meth = ''OPTIONS'' then \<lparr>status = 200, body = CatEmpty\<rparr>
      else \<lparr>status = 200,
            body = CatOk now (length (categoriesData channels)) (length channels)
                     (categoriesData channels)\<rparr>)"

section \<open>The filters of the advanced search, by name\<close>

text \<open>
  The four filters the advanced search applies before the stream gate, each with the
  query parameter that drives it.
\<close>

datatype filter_kind = TextSearch | CountryFilter | CategoryFilter | NsfwFilter

fun apply_filter :: "filter_kind \<Rightarrow> string option \<Rightarrow> result list \<Rightarrow> result list" where
  "apply_filter TextSearch p results = adv_text_filter p results"
| "apply_filter CountryFilter p results = adv_country_filter p results"
| "apply_filter CategoryFilter p results = adv_category_filter p results"
| "apply_filter NsfwFilter p results = adv_nsfw_filter p results"

section \<open>Case-insensitive equality, as the specification words it\<close>

text \<open>
  Two strings are equal up to letter case when their lower-case forms are equal. It is
  used on ASCII strings only.
\<close>

definition ci_equal :: "string \<Rightarrow> string \<Rightarrow> bool" where
  "ci_equal a b = (toLowerCase a = toLowerCase b)"

section \<open>The categories map as a list of listings\<close>

text \<open>
  The two nested iterations of the categories endpoint visit the pairs of a category and a
  channel listing it, channel by channel. The map after a prefix of these listings holds,
  for every category seen, the references of the channels that listed it so far.
\<close>

definition cat_events :: "channel list \<Rightarrow> (string \<times> channel) list" where
  "cat_events channels = concat (map (\<lambda>c. map (\<lambda>k. (k, c)) (ch_categories c)) channels)"

definition cat_step :: "categoryMap \<Rightarrow> string \<times> channel \<Rightarrow> categoryMap" where
  "cat_step m ev = add_category (snd ev) m (fst ev)"

definition cat_refs :: "string \<Rightarrow> (string \<times> channel) list \<Rightarrow> channel_ref list" where
  "cat_refs k evs = map (\<lambda>ev. channel_ref_of (snd ev)) (filter (\<lambda>ev. fst ev = k) evs)"

definition cat_entry_of :: "string \<Rightarrow> (string \<times> channel) list \<Rightarrow> cat_entry" where
  "cat_entry_of k evs =
     \<lparr>ce_name = k, ce_channelCount = length (cat_refs k evs), ce_channels = cat_refs k evs\<rparr>"

definition cat_inv :: "categoryMap \<Rightarrow> (string \<times> channel) list \<Rightarrow> bool" where
  "cat_inv m evs \<longleftrightarrow>
     distinct (map fst m)
     \<and> (\<forall>k. map_of m k = (if k \<in> fst ` set evs then Some (cat_entry_of k evs) else None))"

section \<open>Example data\<close>

definition ex_channel :: channel where
  "ex_channel =
     \<lparr>ch_id = ''BBCOne.uk'', ch_name = ''BBC One'', ch_alt_names = [''BBC 1''],
      ch_country = Some ''UK'', ch_categories = [''general''], ch_network = Some ''BBC'',
      ch_owners = [''BBC''], ch_website = None, ch_is_nsfw = False, ch_launched = None,
      ch_closed = None, ch_replaced_by = None\<rparr>"

definition ex_stream :: stream where
  "ex_stream =
     \<lparr>st_channel = Some ''BBCOne.uk'', st_feed = None, st_url = ''http://a/1.m3u8'',
      st_quality = Some ''720p'', st_title = Some ''BBC One'', st_referrer = None,
      st_user_agent = None\<rparr>"

definition ex_stream_feed :: stream where
  "ex_stream_feed =
     \<lparr>st_channel = None, st_feed = Some ''BBCOne.uk'', st_url = ''http://a/2.m3u8'',
      st_quality = None, st_title = Some ''BBC One HD'', st_referrer = None,
      st_user_agent = None\<rparr>"

definition ex_stream_other :: stream where
  "ex_stream_other =
     \<lparr>st_channel = Some ''CNN.us'', st_feed = None, st_url = ''http://a/3.m3u8'',
      st_quality = None, st_title = None, st_referrer = None, st_user_agent = None\<rparr>"

definition ex_logo_feed :: logo where
  "ex_logo_feed =
     \<lparr>lg_channel = Some ''BBCOne.uk'', lg_feed = Some ''HD'', lg_url = ''feed.png'',
      lg_width = 512, lg_height = 512, lg_format = Some ''PNG'', lg_tags = []\<rparr>"

definition ex_logo_plain :: logo where
  "ex_logo_plain =
     \<lparr>lg_channel = Some ''BBCOne.uk'', lg_feed = None, lg_url = ''plain.png'',
      lg_width = 512, lg_height = 512, lg_format = Some ''PNG'', lg_tags = []\<rparr>"

definition ex_logo_other :: logo where
  "ex_logo_other =
     \<lparr>lg_channel = Some ''CNN.us'', lg_feed = None, lg_url = ''cnn.png'',
      lg_width = 512, lg_height = 512, lg_format = None, lg_tags = []\<rparr>"

definition ex_country_us :: country where
  "ex_country_us =
     \<lparr>co_code = ''US'', co_name = ''United States'', co_flag = ''us-flag'',
      co_languages = [''eng'']\<rparr>"

definition ex_upstream :: upstream where
  "ex_upstream =
     \<lparr>up_channels = Some [ex_channel],
      up_streams = Some [ex_stream_feed, ex_stream_other, ex_stream],
      up_logos = Some [ex_logo_feed, ex_logo_plain],
      up_countries = Some [ex_country_us]\<rparr>"

definition ex_upstream_other :: upstream where
  "ex_upstream_other =
     \<lparr>up_channels = Some [ex_channel],
      up_streams = Some [ex_stream_other],
      up_logos = Some [ex_logo_other],
      up_countries = Some [ex_country_us]\<rparr>"

definition ex_query :: channels_query where
  "ex_query =
     \<lparr>cq_country = Some ''uk'', cq_search = Some ''bbc'', cq_category = None,
      cq_limit = None\<rparr>"

definition ex_strict_query :: strict_query where
  "ex_strict_query =
     \<lparr>sq_q = Some ''bbc'', sq_country = Some ''uk'', sq_category = None, sq_limit = None\<rparr>"

definition ex_adv_query :: adv_query where
  "ex_adv_query =
     \<lparr>aq_q = Some ''bbc'', aq_country = Some ''uk'', aq_category = None, aq_nsfw = None,
      aq_hasStreams = None, aq_limit = None, aq_offset = None\<rparr>"

definition ex_channel_bbc2 :: channel where
  "ex_channel_bbc2 =
     \<lparr>ch_id = ''BBCTwo.uk'', ch_name = ''BBC Two'', ch_alt_names = [],
      ch_country = Some ''UK'', ch_categories = [''general''], ch_network = Some ''BBC'',
      ch_owners = [], ch_website = None, ch_is_nsfw = False, ch_launched = None,
      ch_closed = None, ch_replaced_by = None\<rparr>"

definition ex_channel_bbcnews :: channel where
  "ex_channel_bbcnews =
     \<lparr>ch_id = ''BBCNews.uk'', ch_name = ''BBC News'', ch_alt_names = [],
      ch_country = Some ''UK'', ch_categories = [''news''], ch_network = Some ''BBC'',
      ch_owners = [], ch_website = None, ch_is_nsfw = False, ch_launched = None,
      ch_closed = None, ch_replaced_by = None\<rparr>"

text \<open>A channel whose country code is stored in lower case.\<close>

definition ex_channel_cnn :: channel where
  "ex_channel_cnn =
     \<lparr>ch_id = ''CNN.us'', ch_name = ''CNN'', ch_alt_names = [], ch_country = Some ''us'',
      ch_categories = [''news''], ch_network = None, ch_owners = [], ch_website = None,
      ch_is_nsfw = False, ch_launched = None, ch_closed = None, ch_replaced_by = None\<rparr>"

definition ex_channels :: "channel list" where
  "ex_channels = [ex_channel, ex_channel_bbc2, ex_channel_cnn, ex_channel_bbcnews]"

definition ex_upstream_all :: upstream where
  "ex_upstream_all =
     \<lparr>up_channels = Some ex_channels,
      up_streams = Some [ex_stream_feed, ex_stream_other, ex_stream],
      up_logos = Some [ex_logo_feed, ex_logo_plain],
      up_countries = Some [ex_country_us]\<rparr>"

definition ex_page_query :: adv_query where
  "ex_page_query =
     \<lparr>aq_q = Some ''bbc'', aq_country = None, aq_category = None, aq_nsfw = None,
      aq_hasStreams = None, aq_limit = Some ''2'', aq_offset = Some ''0''\<rparr>"

definition ex_no_q :: strict_query where
  "ex_no_q = \<lparr>sq_q = None, sq_country = None, sq_category = None, sq_limit = None\<rparr>"

definition ex_empty_q :: strict_query where
  "ex_empty_q = \<lparr>sq_q = Some [], sq_country = None, sq_category = None, sq_limit = None\<rparr>"

definition ex_bbc_query :: strict_query where
  "ex_bbc_query =
     \<lparr>sq_q = Some ''bbc'', sq_country = None, sq_category = None, sq_limit = Some ''2''\<rparr>"

definition ex_news :: "channel list" where
  "ex_news =
     map (\<lambda>i. ex_channel_bbcnews\<lparr>ch_id := i\<rparr>) [''n1'', ''n2'', ''n3'', ''n4'', ''n5'', ''n6'']"

definition ex_channel_twice :: channel where
  "ex_channel_twice = ex_channel_cnn\<lparr>ch_categories := [''news'', ''news'']\<rparr>"

definition ex_dup :: "channel list" where
  "ex_dup = [ex_channel_bbcnews, ex_channel_twice]"

section \<open>Properties of the handlers\<close>

subsection \<open>Auxiliary facts\<close>

lemma find_filter_case:
  "find P xs = (case filter P xs of [] \<Rightarrow> None | x # _ \<Rightarrow> Some x)"
  by (induction xs) simp_all

lemma set_slice_subset: "set (slice xs a b) \<subseteq> set xs"
proof -
  have "set (take n (drop k xs)) \<subseteq> set xs" for n k
    using set_take_subset [of n "drop k xs"] set_drop_subset [of k xs] by blast
  then show ?thesis by (simp add: slice_def Let_def)
qed

lemma set_channels_country_filter: "set (channels_country_filter p xs) \<subseteq> set xs"
  by (auto simp: channels_country_filter_def split: option.splits)

lemma set_channels_search_filter: "set (channels_search_filter p xs) \<subseteq> set xs"
  by (auto simp: channels_search_filter_def split: option.splits)

lemma set_channels_category_filter: "set (channels_category_filter p xs) \<subseteq> set xs"
  by (auto simp: channels_category_filter_def split: option.splits)

lemma channels_pipeline_enriched:
  assumes "e \<in> set (channels_pipeline query channels streams logos countries)"
  shows "\<exists>c \<in> set channels. e = enrich streams logos countries c"
proof -
  let ?en = "map (enrich streams logos countries) channels"
  have "e \<in> set (channels_category_filter (cq_category query)
          (channels_search_filter (cq_search query)
            (channels_country_filter (cq_country query) ?en)))"
    using assms unfolding channels_pipeline_def Let_def
    by (rule subsetD [OF set_slice_subset])
  then have "e \<in> set (channels_search_filter (cq_search query)
            (channels_country_filter (cq_country query) ?en))"
    by (rule subsetD [OF set_channels_category_filter])
  then have "e \<in> set (channels_country_filter (cq_country query) ?en)"
    by (rule subsetD [OF set_channels_search_filter])
  then have "e \<in> set ?en"
    by (rule subsetD [OF set_channels_country_filter])
  then show ?thesis by auto
qed

lemma set_strict_country_filter: "set (strict_country_filter p xs) \<subseteq> set xs"
  by (auto simp: strict_country_filter_def split: option.splits)

lemma set_strict_category_filter: "set (strict_category_filter p xs) \<subseteq> set xs"
  by (auto simp: strict_category_filter_def split: option.splits)

lemma set_strict_results: "set (strict_results q query channels) \<subseteq> set channels"
proof -
  have "set (strict_text_filter q channels) \<subseteq> set channels"
    by (auto simp: strict_text_filter_def)
  then show ?thesis
    unfolding strict_results_def
    by (meson set_strict_country_filter set_strict_category_filter subset_trans)
qed

lemma strict_pipeline_enriched:
  assumes "e \<in> set (strict_pipeline q query channels streams logos countries)"
  shows "\<exists>c \<in> set channels. e = enrich streams logos countries c"
proof -
  from assms obtain c where c: "c \<in> set (slice (strict_results q query channels) (Some 0)
      (strict_limit (sq_limit query)))" and e: "e = enrich streams logos countries c"
    by (auto simp: strict_pipeline_def)
  from c have "c \<in> set (strict_results q query channels)"
    by (rule subsetD [OF set_slice_subset])
  then have "c \<in> set channels"
    by (rule subsetD [OF set_strict_results])
  with e show ?thesis by blast
qed

lemma enrich_streams:
  "en_streams (enrich streams logos countries c) =
     map stream_view_of
       (filter (\<lambda>s. st_channel s = Some (en_id (enrich streams logos countries c))
                   \<or> st_feed s = Some (en_id (enrich streams logos countries c))) streams)"
  by (simp add: enrich_def channelStreams_def)

lemma channels_handler_ok:
  assumes "fst (channels_handler meth query up) = \<lparr>status = 200, body = ChOk data n\<rparr>"
  shows "\<exists>channels streams logos countries.
           up_channels up = Some channels \<and> up_streams up = Some streams \<and>
           up_logos up = Some logos \<and> up_countries up = Some countries \<and>
           data = channels_pipeline query channels streams logos countries \<and>
           n = length data"
  using assms
  by (auto simp: channels_handler_def internal_error_def Let_def split: if_splits option.splits)

lemma strict_handler_ok:
  assumes "fst (strict_handler meth query up) = \<lparr>status = 200, body = StOk q data n\<rparr>"
  shows "\<exists>channels streams logos countries.
           up_channels up = Some channels \<and> up_streams up = Some streams \<and>
           up_logos up = Some logos \<and> up_countries up = Some countries \<and>
           sq_q query = Some q \<and> q \<noteq> [] \<and>
           data = strict_pipeline q query channels streams logos countries \<and>
           n = length data"
  using assms
  by (auto simp: strict_handler_def Let_def split: if_splits option.splits)

lemma set_adv_filters:
  "set (adv_text_filter p xs) \<subseteq> set xs"
  "set (adv_country_filter p xs) \<subseteq> set xs"
  "set (adv_category_filter p xs) \<subseteq> set xs"
  "set (adv_nsfw_filter p xs) \<subseteq> set xs"
  "set (adv_hasStreams_filter p xs) \<subseteq> set xs"
  by (auto simp: adv_text_filter_def adv_country_filter_def adv_category_filter_def
      adv_nsfw_filter_def adv_hasStreams_filter_def split: option.splits)

lemma set_adv_filtered:
  "set (adv_filtered query channels streams logos) \<subseteq> to_result streams logos ` set channels"
proof -
  have "set (adv_filtered query channels streams logos)
          \<subseteq> set (map (to_result streams logos) channels)"
    unfolding adv_filtered_def sort_by_streamCount_def set_sort
    by (meson set_adv_filters subset_trans)
  then show ?thesis by simp
qed

lemma adv_handler_data:
  assumes "meth \<noteq> ''OPTIONS''"
  shows "adv_data (body (adv_handler now meth query channels streams logos)) =
           slice (adv_filtered query channels streams logos) (adv_offset (aq_offset query))
             (js_add (adv_offset (aq_offset query)) (adv_limit (aq_limit query)))"
  using assms by (simp add: adv_handler_def Let_def)

lemma to_result_streams:
  "r_streams (to_result streams logos c) =
     map stream_out_of (filter (\<lambda>s. st_channel s = Some (r_id (to_result streams logos c))) streams)"
  by (simp add: to_result_def adv_channelStreams_def Let_def)

subsection \<open>Logo selection\<close>

text \<open>
  C5. The logo of an enriched channel is the URL of the first logo, in dataset order, that
  carries the channel's id and no feed, when there is one; when every logo of the channel
  names a feed, it is the URL of the first logo of the channel; with no logo of the
  channel it is null. A feed that is the empty string counts as no feed (\<^verbatim>\<open>!logo.feed\<close>).
\<close>

theorem logo_selection:
  "en_logo (enrich streams logos countries channel) =
     (case filter (\<lambda>l. lg_channel l = Some (ch_id channel) \<and> \<not> truthy (lg_feed l)) logos of
        l # _ \<Rightarrow> Some (lg_url l)
      | [] \<Rightarrow>
          (case filter (\<lambda>l. lg_channel l = Some (ch_id channel)) logos of
             l # _ \<Rightarrow> Some (lg_url l)
           | [] \<Rightarrow> None))"
  by (simp add: enrich_def channelLogo_def find_filter_case split: list.splits)

theorem logo_selection_witness:
  "en_logo (enrich [] [ex_logo_feed, ex_logo_plain] [] ex_channel) = Some ''plain.png''"
  using logo_selection [of "[]" "[ex_logo_feed, ex_logo_plain]" "[]" ex_channel]
  by (simp add: ex_logo_feed_def ex_logo_plain_def ex_channel_def truthy_def)

subsection \<open>Enrichment does not fail\<close>

text \<open>
  C8. Enrichment is a total function of the channel and the three datasets: with no
  stream of the channel the stream list is empty, with no logo of the channel the logo
  is null, and with the channel's country code in no row of the countries the country
  name and flag are null. Once the four datasets are loaded, the channels handler
  answers 200 whatever the rows are, and so does the strict search handler for a
  non-empty query.
\<close>

theorem enrichment_total:
  "((\<forall>s \<in> set streams. st_channel s \<noteq> Some (ch_id channel) \<and> st_feed s \<noteq> Some (ch_id channel))
      \<longrightarrow> en_streams (enrich streams logos countries channel) = [])
   \<and> ((\<forall>l \<in> set logos. lg_channel l \<noteq> Some (ch_id channel))
      \<longrightarrow> en_logo (enrich streams logos countries channel) = None)
   \<and> ((\<forall>c \<in> set countries. Some (co_code c) \<noteq> ch_country channel)
      \<longrightarrow> en_country_name (enrich streams logos countries channel) = None
        \<and> en_country_flag (enrich streams logos countries channel) = None)
   \<and> (meth \<noteq> ''OPTIONS'' \<and> up_channels up = Some channels \<and> up_streams up = Some streams
        \<and> up_logos up = Some logos \<and> up_countries up = Some countries
      \<longrightarrow> status (fst (channels_handler meth query up)) = 200
        \<and> (sq_q squery = Some q \<and> q \<noteq> [] \<longrightarrow> status (fst (strict_handler meth squery up)) = 200))"
proof (intro conjI impI)
  assume "\<forall>s \<in> set streams. st_channel s \<noteq> Some (ch_id channel) \<and> st_feed s \<noteq> Some (ch_id channel)"
  then have "filter (\<lambda>s. st_channel s = Some (ch_id channel) \<or> st_feed s = Some (ch_id channel))
      streams = []"
    by (simp add: filter_empty_conv)
  then show "en_streams (enrich streams logos countries channel) = []"
    by (simp add: enrich_def channelStreams_def)
next
  assume "\<forall>l \<in> set logos. lg_channel l \<noteq> Some (ch_id channel)"
  then have "filter (\<lambda>l. lg_channel l = Some (ch_id channel)) logos = []"
    and "filter (\<lambda>l. lg_channel l = Some (ch_id channel) \<and> \<not> truthy (lg_feed l)) logos = []"
    by (simp_all add: filter_empty_conv)
  then show "en_logo (enrich streams logos countries channel) = None"
    by (simp add: enrich_def channelLogo_def find_filter_case)
next
  assume a: "\<forall>c \<in> set countries. Some (co_code c) \<noteq> ch_country channel"
  then have "filter (\<lambda>c. Some (co_code c) = ch_country channel) countries = []"
    by (simp add: filter_empty_conv)
  then have n: "countryInfo countries channel = None"
    by (simp add: countryInfo_def find_filter_case)
  show "en_country_name (enrich streams logos countries channel) = None"
    using n by (simp add: enrich_def)
  show "en_country_flag (enrich streams logos countries channel) = None"
    using n by (simp add: enrich_def)
next
  assume "meth \<noteq> ''OPTIONS'' \<and> up_channels up = Some channels \<and> up_streams up = Some streams
        \<and> up_logos up = Some logos \<and> up_countries up = Some countries"
  then show "status (fst (channels_handler meth query up)) = 200"
    by (simp add: channels_handler_def Let_def)
next
  assume "meth \<noteq> ''OPTIONS'' \<and> up_channels up = Some channels \<and> up_streams up = Some streams
        \<and> up_logos up = Some logos \<and> up_countries up = Some countries"
    and "sq_q squery = Some q \<and> q \<noteq> []"
  then show "status (fst (strict_handler meth squery up)) = 200"
    by (simp add: strict_handler_def Let_def)
qed

theorem enrichment_total_witness:
  "en_streams (enrich [ex_stream_other] [ex_logo_other] [ex_country_us] ex_channel) = []
   \<and> en_logo (enrich [ex_stream_other] [ex_logo_other] [ex_country_us] ex_channel) = None
   \<and> en_country_name (enrich [ex_stream_other] [ex_logo_other] [ex_country_us] ex_channel) = None
   \<and> en_country_flag (enrich [ex_stream_other] [ex_logo_other] [ex_country_us] ex_channel) = None
   \<and> status (fst (channels_handler ''GET'' ex_query ex_upstream_other)) = 200
   \<and> status (fst (strict_handler ''GET'' ex_strict_query ex_upstream_other)) = 200"
  using enrichment_total [where streams = "[ex_stream_other]" and logos = "[ex_logo_other]"
      and countries = "[ex_country_us]" and channel = ex_channel and meth = "''GET''"
      and up = ex_upstream_other and channels = "[ex_channel]" and query = ex_query
      and squery = ex_strict_query and q = "''bbc''"]
  by (simp add: ex_channel_def ex_stream_other_def ex_logo_other_def ex_country_us_def
      ex_upstream_other_def ex_strict_query_def)

subsection \<open>Streams attached by the enrichment\<close>

text \<open>
  C2, as the code has it. In a successful response of the channels endpoint and of the
  strict search endpoint, every channel carries the streams whose channel key or feed key
  is the channel's id, in dataset order. In the advanced search endpoint every channel
  carries the streams whose channel key is the channel's id, in dataset order; the feed
  key is not a join key there, it is reported with each stream.
\<close>

theorem streams_attached:
  "(fst (channels_handler meth query up) = \<lparr>status = 200, body = ChOk data n\<rparr>
      \<and> up_streams up = Some streams
     \<longrightarrow> (\<forall>e \<in> set data. en_streams e =
            map stream_view_of
              (filter (\<lambda>s. st_channel s = Some (en_id e) \<or> st_feed s = Some (en_id e)) streams)))
   \<and> (fst (strict_handler meth squery up) = \<lparr>status = 200, body = StOk q sdata m\<rparr>
      \<and> up_streams up = Some streams
     \<longrightarrow> (\<forall>e \<in> set sdata. en_streams e =
            map stream_view_of
              (filter (\<lambda>s. st_channel s = Some (en_id e) \<or> st_feed s = Some (en_id e)) streams)))
   \<and> (meth \<noteq> ''OPTIONS''
     \<longrightarrow> (\<forall>r \<in> set (adv_data (body (adv_handler now meth aquery channels bstreams blogos))).
            r_streams r =
              map stream_out_of (filter (\<lambda>s. st_channel s = Some (r_id r)) bstreams)))"
proof (intro conjI impI ballI)
  fix e
  assume a: "fst (channels_handler meth query up) = \<lparr>status = 200, body = ChOk data n\<rparr>
      \<and> up_streams up = Some streams" and e: "e \<in> set data"
  from a channels_handler_ok [of meth query up data n]
  obtain chs lgs cos where "data = channels_pipeline query chs streams lgs cos"
    by auto
  with e obtain c where "e = enrich streams lgs cos c"
    using channels_pipeline_enriched by blast
  then show "en_streams e = map stream_view_of
      (filter (\<lambda>s. st_channel s = Some (en_id e) \<or> st_feed s = Some (en_id e)) streams)"
    using enrich_streams by simp
next
  fix e
  assume a: "fst (strict_handler meth squery up) = \<lparr>status = 200, body = StOk q sdata m\<rparr>
      \<and> up_streams up = Some streams" and e: "e \<in> set sdata"
  from a strict_handler_ok [of meth squery up q sdata m]
  obtain chs lgs cos where "sdata = strict_pipeline q squery chs streams lgs cos"
    by auto
  with e obtain c where "e = enrich streams lgs cos c"
    using strict_pipeline_enriched by blast
  then show "en_streams e = map stream_view_of
      (filter (\<lambda>s. st_channel s = Some (en_id e) \<or> st_feed s = Some (en_id e)) streams)"
    using enrich_streams by simp
next
  fix r
  assume m: "meth \<noteq> ''OPTIONS''"
    and r: "r \<in> set (adv_data (body (adv_handler now meth aquery channels bstreams blogos)))"
  from r have "r \<in> set (adv_filtered aquery channels bstreams blogos)"
    unfolding adv_handler_data [OF m] by (rule subsetD [OF set_slice_subset])
  then obtain c where "r = to_result bstreams blogos c"
    using set_adv_filtered by blast
  then show "r_streams r = map stream_out_of (filter (\<lambda>s. st_channel s = Some (r_id r)) bstreams)"
    using to_result_streams by simp
qed

theorem streams_attached_witness:
  "map en_streams (ch_data (body (fst (channels_handler ''GET'' ex_query ex_upstream))))
     = [map stream_view_of [ex_stream_feed, ex_stream]]
   \<and> map en_streams (st_data (body (fst (strict_handler ''GET'' ex_strict_query ex_upstream))))
     = [map stream_view_of [ex_stream_feed, ex_stream]]
   \<and> map r_streams (adv_data (body (adv_handler ''t'' ''GET'' ex_adv_query [ex_channel]
        [ex_stream_feed, ex_stream_other, ex_stream] [])))
     = [map stream_out_of [ex_stream]]"
proof -
  let ?S = "[ex_stream_feed, ex_stream_other, ex_stream]"
  let ?D = "[enrich ?S [ex_logo_feed, ex_logo_plain] [ex_country_us] ex_channel]"
  have c: "fst (channels_handler ''GET'' ex_query ex_upstream) = \<lparr>status = 200, body = ChOk ?D 1\<rparr>
      \<and> up_streams ex_upstream = Some ?S"
    by code_simp
  have s: "fst (strict_handler ''GET'' ex_strict_query ex_upstream)
        = \<lparr>status = 200, body = StOk ''bbc'' ?D 1\<rparr>
      \<and> up_streams ex_upstream = Some ?S"
    by code_simp
  have a: "adv_data (body (adv_handler ''t'' ''GET'' ex_adv_query [ex_channel] ?S []))
      = [to_result ?S [] ex_channel]"
    by code_simp
  have m: "''GET'' \<noteq> ''OPTIONS''" by simp
  note t = streams_attached [where meth = "''GET''" and query = ex_query and up = ex_upstream
      and data = ?D and n = 1 and streams = ?S and squery = ex_strict_query and q = "''bbc''"
      and sdata = ?D and m = 1 and now = "''t''" and aquery = ex_adv_query
      and channels = "[ex_channel]" and bstreams = ?S and blogos = "[]"]
  from t c have "\<forall>e \<in> set ?D. en_streams e = map stream_view_of
      (filter (\<lambda>s. st_channel s = Some (en_id e) \<or> st_feed s = Some (en_id e)) ?S)"
    by blast
  then have 1: "map en_streams ?D = [map stream_view_of [ex_stream_feed, ex_stream]]"
    by (simp add: enrich_def ex_channel_def ex_stream_def ex_stream_feed_def
        ex_stream_other_def)
  from t m have "\<forall>r \<in> set (adv_data (body (adv_handler ''t'' ''GET'' ex_adv_query [ex_channel] ?S []))).
      r_streams r = map stream_out_of (filter (\<lambda>s. st_channel s = Some (r_id r)) ?S)"
    by blast
  then have 2: "map r_streams (adv_data (body (adv_handler ''t'' ''GET'' ex_adv_query [ex_channel] ?S [])))
      = [map stream_out_of [ex_stream]]"
    unfolding a
    by (simp add: to_result_def Let_def ex_channel_def ex_stream_def ex_stream_feed_def
        ex_stream_other_def)
  from c s 1 2 show ?thesis by simp
qed

theorem streams_attached_counterexample:
  "st_feed ex_stream_feed = Some (ch_id ex_channel)
   \<and> map r_streams (adv_data (body (adv_handler ''t'' ''GET'' ex_adv_query [ex_channel]
        [ex_stream_feed] []))) = [[]]"
  by code_simp

subsection \<open>The filters of the advanced search commute\<close>

lemma filter_or_same: "\<exists>P. \<forall>xs. (if b then filter Q xs else xs) = filter P xs"
proof (cases b)
  case True
  then show ?thesis by auto
next
  case False
  then show ?thesis by (intro exI [of _ "\<lambda>_. True"]) simp
qed

lemma adv_text_filter_if:
  "adv_text_filter p xs =
     (if truthy p then
        filter (\<lambda>c.
           includes_str (toLowerCase (r_name c)) (toLowerCase (the p))
           \<or> list_ex (\<lambda>name. includes_str (toLowerCase name) (toLowerCase (the p)))
                (r_alternativeNames c)
           \<or> (case r_network c of
                 None \<Rightarrow> False
               | Some n \<Rightarrow> includes_str (toLowerCase n) (toLowerCase (the p)))
           \<or> list_ex (\<lambda>owner. includes_str (toLowerCase owner) (toLowerCase (the p)))
                (r_owners c)) xs
      else xs)"
  by (simp add: adv_text_filter_def truthy_def split: option.splits)

lemma adv_country_filter_if:
  "adv_country_filter p xs =
     (if truthy p then
        filter (\<lambda>c. case r_country c of
                      None \<Rightarrow> False
                    | Some s \<Rightarrow> toLowerCase s = toLowerCase (the p)) xs
      else xs)"
  by (simp add: adv_country_filter_def truthy_def split: option.splits)

lemma adv_category_filter_if:
  "adv_category_filter p xs =
     (if truthy p then
        filter (\<lambda>c. list_ex (\<lambda>cat. toLowerCase cat = toLowerCase (the p)) (r_categories c)) xs
      else xs)"
  by (simp add: adv_category_filter_def truthy_def split: option.splits)

lemma adv_nsfw_filter_if:
  "adv_nsfw_filter p xs =
     (if p \<noteq> None then filter (\<lambda>c. r_isNsfw c = (the p = ''true'')) xs else xs)"
  by (simp add: adv_nsfw_filter_def split: option.splits)

lemma apply_filter_is_filter: "\<exists>P. \<forall>xs. apply_filter f p xs = filter P xs"
proof (cases f)
  case TextSearch
  then show ?thesis
    unfolding TextSearch apply_filter.simps adv_text_filter_if by (simp only: filter_or_same)
next
  case CountryFilter
  then show ?thesis
    unfolding CountryFilter apply_filter.simps adv_country_filter_if by (simp only: filter_or_same)
next
  case CategoryFilter
  then show ?thesis
    unfolding CategoryFilter apply_filter.simps adv_category_filter_if
    by (simp only: filter_or_same)
next
  case NsfwFilter
  then show ?thesis
    unfolding NsfwFilter apply_filter.simps adv_nsfw_filter_if by (simp only: filter_or_same)
qed

text \<open>
  C6. Any two of the text, country, category and NSFW filters of the advanced search,
  each with any value of its parameter, give the same list in either order, and the
  channels the two keep together are those that each keeps alone.
\<close>

theorem filters_commute:
  "apply_filter f p (apply_filter g p' results) = apply_filter g p' (apply_filter f p results)
   \<and> set (apply_filter f p (apply_filter g p' results))
       = set (apply_filter f p results) \<inter> set (apply_filter g p' results)"
proof -
  obtain P where P: "\<And>xs. apply_filter f p xs = filter P xs"
    using apply_filter_is_filter by blast
  obtain Q where Q: "\<And>xs. apply_filter g p' xs = filter Q xs"
    using apply_filter_is_filter by blast
  have "filter P (filter Q results) = filter Q (filter P results)"
    by (simp add: conj_commute)
  moreover have "set (filter P (filter Q results)) = set (filter P results) \<inter> set (filter Q results)"
    by auto
  ultimately show ?thesis by (simp only: P Q)
qed

theorem filters_commute_witness:
  "apply_filter CountryFilter (Some ''uk'')
     (apply_filter TextSearch (Some ''news'') (map (to_result [] []) ex_channels))
     = [to_result [] [] ex_channel_bbcnews]
   \<and> apply_filter TextSearch (Some ''news'')
     (apply_filter CountryFilter (Some ''uk'') (map (to_result [] []) ex_channels))
     = [to_result [] [] ex_channel_bbcnews]"
proof -
  have "apply_filter CountryFilter (Some ''uk'')
     (apply_filter TextSearch (Some ''news'') (map (to_result [] []) ex_channels))
     = [to_result [] [] ex_channel_bbcnews]"
    by code_simp
  with filters_commute [of CountryFilter "Some ''uk''" TextSearch "Some ''news''"
      "map (to_result [] []) ex_channels"]
  show ?thesis by simp
qed

subsection \<open>The pagination envelope of the advanced search\<close>

text \<open>
  C4. In the response of the advanced search, \<open>total\<close> is the length of the filtered and
  sorted list before it is sliced, \<open>offset\<close> and \<open>limit\<close> are the parsed parameters, and
  \<open>hasMore\<close> holds exactly when \<open>offset + limit < total\<close>. The comparison is
  JavaScript's: with an offset or a limit that is \<^verbatim>\<open>NaN\<close> it is false.
\<close>

theorem hasMore_iff:
  "meth \<noteq> ''OPTIONS'' \<longrightarrow>
     pg_total (adv_pagination (body (adv_handler now meth query channels streams logos)))
       = length (adv_filtered query channels streams logos)
   \<and> pg_offset (adv_pagination (body (adv_handler now meth query channels streams logos)))
       = adv_offset (aq_offset query)
   \<and> pg_limit (adv_pagination (body (adv_handler now meth query channels streams logos)))
       = adv_limit (aq_limit query)
   \<and> (pg_hasMore (adv_pagination (body (adv_handler now meth query channels streams logos)))
       \<longleftrightarrow> (\<exists>off lim. adv_offset (aq_offset query) = Some off
               \<and> adv_limit (aq_limit query) = Some lim
               \<and> off + lim < int (length (adv_filtered query channels streams logos))))"
  by (auto simp: adv_handler_def Let_def js_less_def js_add_def split: option.splits)

theorem hasMore_iff_witness:
  "pg_total (adv_pagination (body (adv_handler ''t'' ''GET'' ex_page_query ex_channels [] []))) = 3
   \<and> pg_offset (adv_pagination (body (adv_handler ''t'' ''GET'' ex_page_query ex_channels [] [])))
       = Some 0
   \<and> pg_limit (adv_pagination (body (adv_handler ''t'' ''GET'' ex_page_query ex_channels [] [])))
       = Some 2
   \<and> pg_hasMore (adv_pagination (body (adv_handler ''t'' ''GET'' ex_page_query ex_channels [] [])))"
proof -
  have m: "''GET'' \<noteq> ''OPTIONS''" by simp
  have l: "length (adv_filtered ex_page_query ex_channels [] []) = 3"
    by code_simp
  have o: "adv_offset (aq_offset ex_page_query) = Some 0"
    and k: "adv_limit (aq_limit ex_page_query) = Some 2"
    by code_simp+
  from hasMore_iff [of "''GET''" "''t''" ex_page_query ex_channels "[]" "[]"] m l o k
  show ?thesis by simp
qed

subsection \<open>Limit and offset\<close>

lemma slice_NaN_end: "slice xs a None = []"
  by (simp add: slice_def toIntegerOrInfinity_def relativeIndex_def Let_def)

lemma js_add_NaN: "js_add a None = None" "js_add None b = None"
  by (simp_all add: js_add_def split: option.splits)

lemma length_slice_from_0:
  "length (slice xs (Some 0) (Some k)) =
     (if 0 \<le> k then min (nat k) (length xs) else length xs - nat (- k))"
  by (auto simp: slice_def toIntegerOrInfinity_def relativeIndex_def Let_def)

lemma length_slice_le: "length (slice xs a b) \<le> length xs"
  by (simp add: slice_def Let_def)

text \<open>
  C3, as the code has it. A missing \<open>limit\<close> is the default of the endpoint (50 on the
  channels endpoint and on the advanced search, 20 on the strict search) and a missing
  \<open>offset\<close> is 0: the response is the one for that value. A \<open>limit\<close> or \<open>offset\<close> that
  is supplied and in which \<^verbatim>\<open>parseInt\<close> finds no number is not replaced by the default:
  the slice is empty, so a successful response has no data (and a total of 0 on the
  channels and strict search endpoints, \<open>hasMore\<close> false on the advanced search).
\<close>

theorem pagination_defaults:
  "channels_handler meth (query\<lparr>cq_limit := None\<rparr>) up
     = channels_handler meth (query\<lparr>cq_limit := Some ''50''\<rparr>) up
   \<and> strict_handler meth (squery\<lparr>sq_limit := None\<rparr>) up
     = strict_handler meth (squery\<lparr>sq_limit := Some ''20''\<rparr>) up
   \<and> adv_handler now meth (aquery\<lparr>aq_limit := None\<rparr>) channels streams logos
     = adv_handler now meth (aquery\<lparr>aq_limit := Some ''50''\<rparr>) channels streams logos
   \<and> adv_handler now meth (aquery\<lparr>aq_offset := None\<rparr>) channels streams logos
     = adv_handler now meth (aquery\<lparr>aq_offset := Some ''0''\<rparr>) channels streams logos
   \<and> (parseInt v = None \<longrightarrow>
        (fst (channels_handler meth (query\<lparr>cq_limit := Some v\<rparr>) up)
           = \<lparr>status = 200, body = ChOk data n\<rparr> \<longrightarrow> data = [] \<and> n = 0)
      \<and> (fst (strict_handler meth (squery\<lparr>sq_limit := Some v\<rparr>) up)
           = \<lparr>status = 200, body = StOk q sdata m\<rparr> \<longrightarrow> sdata = [] \<and> m = 0)
      \<and> (meth \<noteq> ''OPTIONS'' \<longrightarrow>
           adv_data (body (adv_handler now meth (aquery\<lparr>aq_limit := Some v\<rparr>)
              channels streams logos)) = []
         \<and> \<not> pg_hasMore (adv_pagination (body (adv_handler now meth
              (aquery\<lparr>aq_limit := Some v\<rparr>) channels streams logos)))
         \<and> adv_data (body (adv_handler now meth (aquery\<lparr>aq_offset := Some v\<rparr>)
              channels streams logos)) = []
         \<and> \<not> pg_hasMore (adv_pagination (body (adv_handler now meth
              (aquery\<lparr>aq_offset := Some v\<rparr>) channels streams logos)))))"
proof (intro conjI impI)
  show "channels_handler meth (query\<lparr>cq_limit := None\<rparr>) up
     = channels_handler meth (query\<lparr>cq_limit := Some ''50''\<rparr>) up"
    by (simp add: channels_handler_def channels_pipeline_def channels_limit_def
        split: option.splits)
  show "strict_handler meth (squery\<lparr>sq_limit := None\<rparr>) up
     = strict_handler meth (squery\<lparr>sq_limit := Some ''20''\<rparr>) up"
    by (simp add: strict_handler_def strict_pipeline_def strict_results_def strict_limit_def
        split: option.splits)
  show "adv_handler now meth (aquery\<lparr>aq_limit := None\<rparr>) channels streams logos
     = adv_handler now meth (aquery\<lparr>aq_limit := Some ''50''\<rparr>) channels streams logos"
    by (simp add: adv_handler_def adv_filtered_def adv_limit_def)
  show "adv_handler now meth (aquery\<lparr>aq_offset := None\<rparr>) channels streams logos
     = adv_handler now meth (aquery\<lparr>aq_offset := Some ''0''\<rparr>) channels streams logos"
    by (simp add: adv_handler_def adv_filtered_def adv_offset_def)
next
  assume v: "parseInt v = None"
    and ok: "fst (channels_handler meth (query\<lparr>cq_limit := Some v\<rparr>) up)
           = \<lparr>status = 200, body = ChOk data n\<rparr>"
  from channels_handler_ok [OF ok] obtain chs ss ls cs where
    d: "data = channels_pipeline (query\<lparr>cq_limit := Some v\<rparr>) chs ss ls cs" and n: "n = length data"
    by blast
  from d v show "data = []"
    by (simp add: channels_pipeline_def channels_limit_def Let_def slice_NaN_end)
  with n show "n = 0" by simp
next
  assume v: "parseInt v = None"
    and ok: "fst (strict_handler meth (squery\<lparr>sq_limit := Some v\<rparr>) up)
           = \<lparr>status = 200, body = StOk q sdata m\<rparr>"
  from strict_handler_ok [OF ok] obtain chs ss ls cs where
    d: "sdata = strict_pipeline q (squery\<lparr>sq_limit := Some v\<rparr>) chs ss ls cs"
    and n: "m = length sdata"
    by blast
  from d v show "sdata = []"
    by (simp add: strict_pipeline_def strict_limit_def slice_NaN_end)
  with n show "m = 0" by simp
next
  assume v: "parseInt v = None" and m: "meth \<noteq> ''OPTIONS''"
  from v m show "adv_data (body (adv_handler now meth (aquery\<lparr>aq_limit := Some v\<rparr>)
              channels streams logos)) = []"
    by (simp add: adv_handler_data adv_limit_def js_add_NaN slice_NaN_end)
  from v m show "\<not> pg_hasMore (adv_pagination (body (adv_handler now meth
              (aquery\<lparr>aq_limit := Some v\<rparr>) channels streams logos)))"
    by (simp add: adv_handler_def Let_def adv_limit_def js_add_NaN js_less_def)
  from v m show "adv_data (body (adv_handler now meth (aquery\<lparr>aq_offset := Some v\<rparr>)
              channels streams logos)) = []"
    by (simp add: adv_handler_data adv_offset_def js_add_NaN slice_NaN_end)
  from v m show "\<not> pg_hasMore (adv_pagination (body (adv_handler now meth
              (aquery\<lparr>aq_offset := Some v\<rparr>) channels streams logos)))"
    by (simp add: adv_handler_def Let_def adv_offset_def js_add_NaN js_less_def)
qed

theorem pagination_defaults_counterexample:
  "fst (channels_handler ''GET'' (ex_query\<lparr>cq_limit := Some ''abc''\<rparr>) ex_upstream)
     = \<lparr>status = 200, body = ChOk [] 0\<rparr>
   \<and> ch_total (body (fst (channels_handler ''GET'' (ex_query\<lparr>cq_limit := Some ''50''\<rparr>)
        ex_upstream))) = 1"
  by code_simp

theorem pagination_defaults_witness:
  "parseInt ''abc'' = None
   \<and> fst (channels_handler ''GET'' (ex_query\<lparr>cq_limit := Some ''abc''\<rparr>) ex_upstream)
       = \<lparr>status = 200, body = ChOk [] 0\<rparr>
   \<and> fst (strict_handler ''GET'' (ex_strict_query\<lparr>sq_limit := Some ''abc''\<rparr>) ex_upstream)
       = \<lparr>status = 200, body = StOk ''bbc'' [] 0\<rparr>
   \<and> adv_data (body (adv_handler ''t'' ''GET'' (ex_adv_query\<lparr>aq_limit := Some ''abc''\<rparr>)
        ex_channels [] [])) = []
   \<and> adv_data (body (adv_handler ''t'' ''GET'' (ex_adv_query\<lparr>aq_offset := Some ''abc''\<rparr>)
        ex_channels [] [])) = []
   \<and> channels_handler ''GET'' (ex_query\<lparr>cq_limit := None\<rparr>) ex_upstream
       = channels_handler ''GET'' (ex_query\<lparr>cq_limit := Some ''50''\<rparr>) ex_upstream"
proof -
  have v: "parseInt ''abc'' = None" by code_simp
  have m: "''GET'' \<noteq> ''OPTIONS''" by simp
  have c: "fst (channels_handler ''GET'' (ex_query\<lparr>cq_limit := Some ''abc''\<rparr>) ex_upstream)
       = \<lparr>status = 200, body = ChOk [] 0\<rparr>"
    by code_simp
  have s: "fst (strict_handler ''GET'' (ex_strict_query\<lparr>sq_limit := Some ''abc''\<rparr>) ex_upstream)
       = \<lparr>status = 200, body = StOk ''bbc'' [] 0\<rparr>"
    by code_simp
  from pagination_defaults [where v = "''abc''" and meth = "''GET''" and query = ex_query
      and up = ex_upstream and data = "[]" and n = 0 and squery = ex_strict_query
      and q = "''bbc''" and sdata = "[]" and m = 0 and now = "''t''" and aquery = ex_adv_query
      and channels = ex_channels and streams = "[]" and logos = "[]"] v m c s
  show ?thesis by simp
qed

subsection \<open>The 400 response of the strict search\<close>

text \<open>
  C7, as the code has it. The strict search answers 400 exactly when the request is not
  an OPTIONS request and \<open>q\<close> is missing or is the empty string; the body is then
  \<^verbatim>\<open>{success: false, error: "Search query (q) is required"}\<close> and no dataset is fetched.
  An OPTIONS request is answered 200 before the query is read.
\<close>

theorem strict_bad_request:
  "(status (fst (strict_handler meth query up)) = 400
      \<longleftrightarrow> meth \<noteq> ''OPTIONS'' \<and> (sq_q query = None \<or> sq_q query = Some []))
   \<and> (meth \<noteq> ''OPTIONS'' \<and> (sq_q query = None \<or> sq_q query = Some [])
      \<longrightarrow> strict_handler meth query up
            = (\<lparr>status = 400, body = StError ''Search query (q) is required''\<rparr>, []))"
  by (auto simp: strict_handler_def Let_def split: option.splits)

theorem strict_bad_request_witness:
  "strict_handler ''GET'' ex_no_q ex_upstream
     = (\<lparr>status = 400, body = StError ''Search query (q) is required''\<rparr>, [])"
proof -
  have "''GET'' \<noteq> ''OPTIONS'' \<and> (sq_q ex_no_q = None \<or> sq_q ex_no_q = Some [])"
    by (simp add: ex_no_q_def)
  with strict_bad_request [of "''GET''" ex_no_q ex_upstream] show ?thesis by blast
qed

theorem strict_bad_request_counterexample:
  "sq_q ex_empty_q = Some []
   \<and> status (fst (strict_handler ''GET'' ex_empty_q ex_upstream)) = 400
   \<and> sq_q ex_no_q = None
   \<and> status (fst (strict_handler ''OPTIONS'' ex_no_q ex_upstream)) = 200"
  by code_simp

subsection \<open>The total of the strict search\<close>

text \<open>
  C10, as the code has it. In a successful response of the strict search, \<open>total\<close> is the
  number of channels returned, that is the length of \<^verbatim>\<open>results.slice(0, limit)\<close>: with a
  limit \<open>k \<ge> 0\<close> it is the smaller of \<open>k\<close> and the number of matches, hence at most the
  limit; with a negative limit \<open>k\<close> it is the number of matches less \<open>-k\<close>, which can
  exceed the limit; with no number in the limit it is 0. The advanced search reports the
  length of the filtered list before the slice, which is at least the number returned.
\<close>

theorem strict_total:
  "(fst (strict_handler meth query up) = \<lparr>status = 200, body = StOk q data n\<rparr>
      \<and> up_channels up = Some channels \<longrightarrow>
        n = length data
      \<and> n = length (slice (strict_results q query channels) (Some 0)
                     (strict_limit (sq_limit query)))
      \<and> (\<forall>k. strict_limit (sq_limit query) = Some k \<and> 0 \<le> k \<longrightarrow>
             n = min (nat k) (length (strict_results q query channels)) \<and> int n \<le> k)
      \<and> (\<forall>k. strict_limit (sq_limit query) = Some k \<and> k < 0 \<longrightarrow>
             n = length (strict_results q query channels) - nat (- k))
      \<and> (strict_limit (sq_limit query) = None \<longrightarrow> n = 0))
   \<and> (meth \<noteq> ''OPTIONS'' \<longrightarrow>
        pg_total (adv_pagination (body (adv_handler now meth aquery bchannels bstreams blogos)))
          = length (adv_filtered aquery bchannels bstreams blogos)
      \<and> length (adv_data (body (adv_handler now meth aquery bchannels bstreams blogos)))
          \<le> length (adv_filtered aquery bchannels bstreams blogos))"
proof (intro conjI impI allI)
  assume a: "fst (strict_handler meth query up) = \<lparr>status = 200, body = StOk q data n\<rparr>
      \<and> up_channels up = Some channels"
  then obtain ss ls cs where
    d: "data = strict_pipeline q query channels ss ls cs" and n: "n = length data"
    using strict_handler_ok [of meth query up q data n] by auto
  show "n = length data" by (rule n)
  show n2: "n = length (slice (strict_results q query channels) (Some 0)
                     (strict_limit (sq_limit query)))"
    using n d by (simp add: strict_pipeline_def)
  {
    fix k
    assume k: "strict_limit (sq_limit query) = Some k \<and> 0 \<le> k"
    with n2 show "n = min (nat k) (length (strict_results q query channels))"
      by (simp add: length_slice_from_0)
    with k show "int n \<le> k" by (auto simp: min_def)
  }
  {
    fix k
    assume "strict_limit (sq_limit query) = Some k \<and> k < 0"
    with n2 show "n = length (strict_results q query channels) - nat (- k)"
      by (simp add: length_slice_from_0)
  }
  {
    assume "strict_limit (sq_limit query) = None"
    with n2 show "n = 0" by (simp add: slice_NaN_end)
  }
next
  assume m: "meth \<noteq> ''OPTIONS''"
  then show "pg_total (adv_pagination (body (adv_handler now meth aquery bchannels bstreams blogos)))
          = length (adv_filtered aquery bchannels bstreams blogos)"
    by (simp add: adv_handler_def Let_def)
  show "length (adv_data (body (adv_handler now meth aquery bchannels bstreams blogos)))
          \<le> length (adv_filtered aquery bchannels bstreams blogos)"
    unfolding adv_handler_data [OF m] by (rule length_slice_le)
qed

theorem strict_total_counterexample:
  "fst (strict_handler ''GET'' (ex_bbc_query\<lparr>sq_limit := Some ''-1''\<rparr>) ex_upstream_all)
     = \<lparr>status = 200,
        body = StOk ''bbc''
          (strict_pipeline ''bbc'' (ex_bbc_query\<lparr>sq_limit := Some ''-1''\<rparr>) ex_channels
             [ex_stream_feed, ex_stream_other, ex_stream] [ex_logo_feed, ex_logo_plain]
             [ex_country_us]) 2\<rparr>
   \<and> strict_limit (Some ''-1'') = Some (- 1)
   \<and> length (strict_results ''bbc'' ex_bbc_query ex_channels) = 3"
  by code_simp

theorem strict_total_witness:
  "st_total (body (fst (strict_handler ''GET'' ex_bbc_query ex_upstream_all))) = 2
   \<and> length (st_data (body (fst (strict_handler ''GET'' ex_bbc_query ex_upstream_all)))) = 2
   \<and> length (strict_results ''bbc'' ex_bbc_query ex_channels) = 3
   \<and> pg_total (adv_pagination (body (adv_handler ''t'' ''GET'' ex_page_query ex_channels [] [])))
       = 3
   \<and> length (adv_data (body (adv_handler ''t'' ''GET'' ex_page_query ex_channels [] []))) = 2"
proof -
  let ?D = "strict_pipeline ''bbc'' ex_bbc_query ex_channels
             [ex_stream_feed, ex_stream_other, ex_stream] [ex_logo_feed, ex_logo_plain]
             [ex_country_us]"
  have h: "fst (strict_handler ''GET'' ex_bbc_query ex_upstream_all)
       = \<lparr>status = 200, body = StOk ''bbc'' ?D 2\<rparr>
     \<and> up_channels ex_upstream_all = Some ex_channels"
    by code_simp
  have m: "''GET'' \<noteq> ''OPTIONS''" by simp
  have k: "strict_limit (sq_limit ex_bbc_query) = Some 2 \<and> (0::int) \<le> 2" by code_simp
  have l: "length (strict_results ''bbc'' ex_bbc_query ex_channels) = 3" by code_simp
  have f: "length (adv_filtered ex_page_query ex_channels [] []) = 3" by code_simp
  have p: "length (adv_data (body (adv_handler ''t'' ''GET'' ex_page_query ex_channels [] []))) = 2"
    by code_simp
  note t = strict_total [where meth = "''GET''" and query = ex_bbc_query and up = ex_upstream_all
      and q = "''bbc''" and data = ?D and n = 2 and channels = ex_channels and now = "''t''"
      and aquery = ex_page_query and bchannels = ex_channels and bstreams = "[]"
      and blogos = "[]"]
  from t h have "(2::nat) = length ?D" by blast
  moreover from t m f
  have "pg_total (adv_pagination (body (adv_handler ''t'' ''GET'' ex_page_query ex_channels [] [])))
       = 3" by simp
  ultimately show ?thesis using h l p by simp
qed

subsection \<open>The country filter\<close>

lemma toLowerChar_unfold:
  "toLowerChar c =
     (if 65 \<le> (of_char c :: nat) \<and> (of_char c :: nat) \<le> 90
      then char_of ((of_char c :: nat) + 32) else c)"
  by (simp add: toLowerChar_def Let_def)

lemma toUpperChar_unfold:
  "toUpperChar c =
     (if 97 \<le> (of_char c :: nat) \<and> (of_char c :: nat) \<le> 122
      then char_of ((of_char c :: nat) - 32) else c)"
  by (simp add: toUpperChar_def Let_def)

lemma lower_upper_char: "toLowerChar (toUpperChar c) = toLowerChar c"
proof (cases "97 \<le> (of_char c :: nat) \<and> (of_char c :: nat) \<le> 122")
  case True
  define n where "n = (of_char c :: nat)"
  from True have n: "97 \<le> n" "n \<le> 122" by (simp_all add: n_def)
  have u: "toUpperChar c = char_of (n - 32)"
    using True by (simp add: toUpperChar_unfold n_def)
  have o: "(of_char (char_of (n - 32)) :: nat) = n - 32"
    using n by simp
  have "toLowerChar (char_of (n - 32)) = char_of (n - 32 + 32)"
    using n by (auto simp: toLowerChar_unfold o)
  also have "n - 32 + 32 = n" using n by simp
  also have "char_of n = c" by (simp add: n_def)
  finally have 1: "toLowerChar (toUpperChar c) = c" using u by simp
  have "toLowerChar c = c" using True by (auto simp: toLowerChar_unfold)
  with 1 show ?thesis by simp
next
  case False
  then have "toUpperChar c = c" by (auto simp: toUpperChar_unfold)
  then show ?thesis by simp
qed

lemma upper_lower_char: "toUpperChar (toLowerChar c) = toUpperChar c"
proof (cases "65 \<le> (of_char c :: nat) \<and> (of_char c :: nat) \<le> 90")
  case True
  define n where "n = (of_char c :: nat)"
  from True have n: "65 \<le> n" "n \<le> 90" by (simp_all add: n_def)
  have u: "toLowerChar c = char_of (n + 32)"
    using True by (simp add: toLowerChar_unfold n_def)
  have o: "(of_char (char_of (n + 32)) :: nat) = n + 32"
    using n by simp
  have "toUpperChar (char_of (n + 32)) = char_of (n + 32 - 32)"
    using n by (auto simp: toUpperChar_unfold o)
  also have "n + 32 - 32 = n" by simp
  also have "char_of n = c" by (simp add: n_def)
  finally have 1: "toUpperChar (toLowerChar c) = c" using u by simp
  have "toUpperChar c = c" using True by (auto simp: toUpperChar_unfold)
  with 1 show ?thesis by simp
next
  case False
  then have "toLowerChar c = c" by (auto simp: toLowerChar_unfold)
  then show ?thesis by simp
qed

lemma lower_upper: "toLowerCase (toUpperCase s) = toLowerCase s"
  by (simp add: toLowerCase_def toUpperCase_def lower_upper_char)

lemma upper_lower: "toUpperCase (toLowerCase s) = toUpperCase s"
  by (simp add: toLowerCase_def toUpperCase_def upper_lower_char)

lemma eq_upper_imp_ci_equal: "s = toUpperCase p \<Longrightarrow> ci_equal s p"
  by (simp add: ci_equal_def lower_upper)

lemma ci_equal_upper_stored:
  assumes "toUpperCase s = s" and "ci_equal s p"
  shows "s = toUpperCase p"
proof -
  have "s = toUpperCase (toLowerCase s)" using assms(1) by (simp add: upper_lower)
  also have "\<dots> = toUpperCase (toLowerCase p)" using assms(2) by (simp add: ci_equal_def)
  also have "\<dots> = toUpperCase p" by (rule upper_lower)
  finally show ?thesis .
qed

lemma toUpperChar_ascii: "(of_char c :: nat) < 128 \<Longrightarrow> (of_char (toUpperChar c) :: nat) < 128"
proof (cases "97 \<le> (of_char c :: nat) \<and> (of_char c :: nat) \<le> 122")
  case True
  then have "toUpperChar c = char_of ((of_char c :: nat) - 32)"
    by (simp add: toUpperChar_unfold)
  moreover from True have "(of_char (char_of ((of_char c :: nat) - 32)) :: nat) = of_char c - 32"
    by auto
  ultimately show ?thesis using True by auto
next
  case False
  assume "(of_char c :: nat) < 128"
  with False show ?thesis by (auto simp: toUpperChar_unfold)
qed

lemma isASCII_toUpperCase: "isASCII p \<Longrightarrow> isASCII (toUpperCase p)"
  by (induction p) (simp_all add: isASCII_def toUpperCase_def toUpperChar_ascii)

text \<open>
  C1, as the code has it, for ASCII country codes. For a non-empty ASCII country
  parameter: every channel a country filter keeps is a channel of the collection whose
  country is an ASCII string equal to the parameter up to letter case; on the channels
  endpoint and on the strict search a channel whose stored code is an ASCII string in
  upper case and equals the parameter up to letter case is kept; on the advanced search,
  over a collection whose stored codes are ASCII, the channels kept are exactly those
  whose country equals the parameter up to letter case. With a missing or empty
  parameter no country filter is applied.
\<close>

theorem country_filter_ci:
  "(p \<noteq> [] \<and> isASCII p \<longrightarrow>
      (\<forall>e \<in> set (channels_country_filter (Some p) xs).
          e \<in> set xs \<and> (\<exists>s. en_country e = Some s \<and> isASCII s \<and> ci_equal s p))
    \<and> (\<forall>e \<in> set xs. \<forall>s. en_country e = Some s \<and> isASCII s \<and> toUpperCase s = s
            \<and> ci_equal s p
          \<longrightarrow> e \<in> set (channels_country_filter (Some p) xs))
    \<and> (\<forall>c \<in> set (strict_country_filter (Some p) cs).
          c \<in> set cs \<and> (\<exists>s. ch_country c = Some s \<and> isASCII s \<and> ci_equal s p))
    \<and> (\<forall>c \<in> set cs. \<forall>s. ch_country c = Some s \<and> isASCII s \<and> toUpperCase s = s
            \<and> ci_equal s p
          \<longrightarrow> c \<in> set (strict_country_filter (Some p) cs))
    \<and> ((\<forall>r \<in> set rs. case r_country r of None \<Rightarrow> True | Some s \<Rightarrow> isASCII s) \<longrightarrow>
         adv_country_filter (Some p) rs
           = filter (\<lambda>r. case r_country r of None \<Rightarrow> False | Some s \<Rightarrow> ci_equal s p) rs))
   \<and> channels_country_filter None xs = xs \<and> channels_country_filter (Some []) xs = xs
   \<and> strict_country_filter None cs = cs \<and> strict_country_filter (Some []) cs = cs
   \<and> adv_country_filter None rs = rs \<and> adv_country_filter (Some []) rs = rs"
proof (intro conjI impI ballI allI)
  fix e
  assume p: "p \<noteq> [] \<and> isASCII p" and e: "e \<in> set (channels_country_filter (Some p) xs)"
  from p e show "e \<in> set xs" by (simp add: channels_country_filter_def)
  from p e have "en_country e = Some (toUpperCase p)"
    by (simp add: channels_country_filter_def)
  with p show "\<exists>s. en_country e = Some s \<and> isASCII s \<and> ci_equal s p"
    by (simp add: eq_upper_imp_ci_equal isASCII_toUpperCase)
next
  fix e s
  assume p: "p \<noteq> [] \<and> isASCII p" and e: "e \<in> set xs"
    and s: "en_country e = Some s \<and> isASCII s \<and> toUpperCase s = s \<and> ci_equal s p"
  from s have "s = toUpperCase p" by (simp add: ci_equal_upper_stored)
  with p e s show "e \<in> set (channels_country_filter (Some p) xs)"
    by (simp add: channels_country_filter_def)
next
  fix c
  assume p: "p \<noteq> [] \<and> isASCII p" and c: "c \<in> set (strict_country_filter (Some p) cs)"
  from p c show "c \<in> set cs" by (simp add: strict_country_filter_def)
  from p c have "ch_country c = Some (toUpperCase p)"
    by (simp add: strict_country_filter_def)
  with p show "\<exists>s. ch_country c = Some s \<and> isASCII s \<and> ci_equal s p"
    by (simp add: eq_upper_imp_ci_equal isASCII_toUpperCase)
next
  fix c s
  assume p: "p \<noteq> [] \<and> isASCII p" and c: "c \<in> set cs"
    and s: "ch_country c = Some s \<and> isASCII s \<and> toUpperCase s = s \<and> ci_equal s p"
  from s have "s = toUpperCase p" by (simp add: ci_equal_upper_stored)
  with p c s show "c \<in> set (strict_country_filter (Some p) cs)"
    by (simp add: strict_country_filter_def)
next
  assume "p \<noteq> [] \<and> isASCII p"
  then show "adv_country_filter (Some p) rs
        = filter (\<lambda>r. case r_country r of None \<Rightarrow> False | Some s \<Rightarrow> ci_equal s p) rs"
    unfolding ci_equal_def by (simp add: adv_country_filter_def)
qed (simp_all add: channels_country_filter_def strict_country_filter_def adv_country_filter_def)

theorem country_filter_ci_counterexample:
  "en_country (enrich [] [] [] ex_channel_cnn) = Some ''us''
   \<and> isASCII ''us'' \<and> isASCII ''US''
   \<and> ci_equal ''us'' ''US''
   \<and> channels_country_filter (Some ''US'') [enrich [] [] [] ex_channel_cnn] = []
   \<and> en_country (enrich [] [] [] ex_channel) = Some ''UK''
   \<and> \<not> ci_equal ''UK'' ''''
   \<and> channels_country_filter (Some '''') [enrich [] [] [] ex_channel]
       = [enrich [] [] [] ex_channel]"
  by code_simp

theorem country_filter_ci_witness:
  "isASCII ''uk''
   \<and> channels_country_filter (Some ''uk'') (map (enrich [] [] []) ex_channels)
     = map (enrich [] [] []) [ex_channel, ex_channel_bbc2, ex_channel_bbcnews]
   \<and> strict_country_filter (Some ''uk'') ex_channels
     = [ex_channel, ex_channel_bbc2, ex_channel_bbcnews]
   \<and> adv_country_filter (Some ''uk'') (map (to_result [] []) ex_channels)
     = map (to_result [] []) [ex_channel, ex_channel_bbc2, ex_channel_bbcnews]"
proof -
  let ?R = "map (to_result [] []) ex_channels"
  have p: "''uk'' \<noteq> [] \<and> isASCII ''uk''" by code_simp
  have a: "\<forall>r \<in> set ?R. case r_country r of None \<Rightarrow> True | Some s \<Rightarrow> isASCII s"
    by code_simp
  have 1: "channels_country_filter (Some ''uk'') (map (enrich [] [] []) ex_channels)
     = map (enrich [] [] []) [ex_channel, ex_channel_bbc2, ex_channel_bbcnews]"
    by code_simp
  have 2: "strict_country_filter (Some ''uk'') ex_channels
     = [ex_channel, ex_channel_bbc2, ex_channel_bbcnews]"
    by code_simp
  have 3: "filter (\<lambda>r. case r_country r of None \<Rightarrow> False | Some s \<Rightarrow> ci_equal s ''uk'') ?R
      = map (to_result [] []) [ex_channel, ex_channel_bbc2, ex_channel_bbcnews]"
    by code_simp
  note t = country_filter_ci [where p = "''uk''" and xs = "map (enrich [] [] []) ex_channels"
      and cs = ex_channels and rs = ?R]
  from t p a have "adv_country_filter (Some ''uk'') ?R
      = filter (\<lambda>r. case r_country r of None \<Rightarrow> False | Some s \<Rightarrow> ci_equal s ''uk'') ?R"
    by blast
  with p 1 2 3 show ?thesis by (simp only:)
qed

subsection \<open>The categories endpoint\<close>

lemma foldl_add_category:
  "foldl (add_category c) m ks = foldl cat_step m (map (\<lambda>k. (k, c)) ks)"
  by (induction ks arbitrary: m) (simp_all add: cat_step_def)

lemma build_categoryMap_events:
  "foldl add_channel m channels = foldl cat_step m (cat_events channels)"
  by (induction channels arbitrary: m)
    (simp_all add: cat_events_def add_channel_def foldl_add_category)

lemma map_of_map_update: "map_of (map_update m k v) = (map_of m)(k \<mapsto> v)"
  by (induction m) (auto simp: fun_eq_iff)

lemma keys_map_update: "fst ` set (map_update m k v) = insert k (fst ` set m)"
proof (induction m)
  case Nil
  show ?case by simp
next
  case (Cons a m)
  obtain k' v' where a: "a = (k', v')" by (cases a)
  show ?case
  proof (cases "k' = k")
    case True
    with a show ?thesis by simp
  next
    case False
    with a have "fst ` set (map_update (a # m) k v) = insert k' (fst ` set (map_update m k v))"
      by simp
    also have "\<dots> = insert k' (insert k (fst ` set m))" by (simp only: Cons.IH)
    also have "\<dots> = insert k (fst ` set (a # m))" using a by auto
    finally show ?thesis .
  qed
qed

lemma distinct_map_update:
  "distinct (map fst m) \<Longrightarrow> distinct (map fst (map_update m k v))"
proof (induction m)
  case Nil
  then show ?case by simp
next
  case (Cons a m)
  obtain k' v' where a: "a = (k', v')" by (cases a)
  show ?case
  proof (cases "k' = k")
    case True
    with Cons.prems a show ?thesis by simp
  next
    case False
    from Cons.prems a have "k' \<notin> fst ` set m" and "distinct (map fst m)" by auto
    with False have "k' \<notin> fst ` set (map_update m k v)"
      by (simp add: keys_map_update)
    with Cons.IH \<open>distinct (map fst m)\<close> a False show ?thesis by simp
  qed
qed

lemma cat_refs_snoc:
  "cat_refs k (evs @ [(k', c)]) =
     (if k' = k then cat_refs k evs @ [channel_ref_of c] else cat_refs k evs)"
  by (simp add: cat_refs_def)

lemma cat_refs_absent: "k \<notin> fst ` set evs \<Longrightarrow> cat_refs k evs = []"
  by (auto simp: cat_refs_def filter_empty_conv)

lemma cat_step_inv:
  assumes "cat_inv m evs"
  shows "cat_inv (cat_step m (k, c)) (evs @ [(k, c)])"
proof -
  from assms have d: "distinct (map fst m)"
    and mo: "\<And>k'. map_of m k' = (if k' \<in> fst ` set evs then Some (cat_entry_of k' evs) else None)"
    by (simp_all add: cat_inv_def)
  let ?new = "cat_entry_of k (evs @ [(k, c)])"
  have step: "cat_step m (k, c) =
      (if k \<in> fst ` set evs then map_update m k ?new
       else map_update (map_update m k \<lparr>ce_name = k, ce_channelCount = 0, ce_channels = []\<rparr>) k ?new)"
  proof (cases "k \<in> fst ` set evs")
    case True
    then have "map_of m k = Some (cat_entry_of k evs)" by (simp add: mo)
    then show ?thesis using True
      by (simp add: cat_step_def add_category_def map_has_def Let_def cat_entry_of_def
          cat_refs_snoc)
  next
    case False
    then have "map_of m k = None" by (simp add: mo)
    then show ?thesis using False
      by (simp add: cat_step_def add_category_def map_has_def Let_def cat_entry_of_def
          cat_refs_snoc cat_refs_absent map_of_map_update)
  qed
  have dist: "distinct (map fst (cat_step m (k, c)))"
    unfolding step using d by (simp add: distinct_map_update)
  have lookup: "map_of (cat_step m (k, c)) = (map_of m)(k \<mapsto> ?new)"
    unfolding step by (simp add: map_of_map_update)
  have "map_of (cat_step m (k, c)) k' =
      (if k' \<in> fst ` set (evs @ [(k, c)]) then Some (cat_entry_of k' (evs @ [(k, c)])) else None)"
    for k'
  proof (cases "k' = k")
    case True
    then show ?thesis by (simp add: lookup)
  next
    case False
    then have "cat_entry_of k' (evs @ [(k, c)]) = cat_entry_of k' evs"
      by (simp add: cat_entry_of_def cat_refs_snoc)
    with False show ?thesis by (simp add: lookup mo)
  qed
  with dist show ?thesis by (simp add: cat_inv_def)
qed

lemma cat_inv_foldl: "cat_inv (foldl cat_step [] evs) evs"
proof (induction evs rule: rev_induct)
  case Nil
  show ?case by (simp add: cat_inv_def)
next
  case (snoc ev evs)
  obtain k c where "ev = (k, c)" by (cases ev)
  with snoc cat_step_inv [of "foldl cat_step [] evs" evs k c] show ?case by simp
qed

lemma cat_inv_build: "cat_inv (build_categoryMap channels) (cat_events channels)"
  by (simp add: build_categoryMap_def build_categoryMap_events cat_inv_foldl)

lemma filter_category_events:
  "distinct ks \<Longrightarrow>
     filter (\<lambda>ev. fst ev = k) (map (\<lambda>k'. (k', c)) ks) = (if k \<in> set ks then [(k, c)] else [])"
  by (induction ks) (auto simp: filter_empty_conv)

lemma cat_refs_events:
  assumes "\<forall>c \<in> set channels. distinct (ch_categories c)"
  shows "cat_refs k (cat_events channels) =
           map channel_ref_of (filter (\<lambda>c. k \<in> set (ch_categories c)) channels)"
  using assms
proof (induction channels)
  case Nil
  show ?case by (simp add: cat_refs_def cat_events_def)
next
  case (Cons c channels)
  then have ih: "cat_refs k (cat_events channels) =
           map channel_ref_of (filter (\<lambda>c. k \<in> set (ch_categories c)) channels)"
    and d: "distinct (ch_categories c)" by simp_all
  have "cat_refs k (cat_events (c # channels)) =
      map (\<lambda>ev. channel_ref_of (snd ev))
        (filter (\<lambda>ev. fst ev = k) (map (\<lambda>k'. (k', c)) (ch_categories c)))
      @ cat_refs k (cat_events channels)"
    by (simp add: cat_refs_def cat_events_def)
  then show ?case
    by (simp add: filter_category_events [OF d] ih)
qed

lemma slice_first_5: "slice xs (Some 0) (Some 5) = take 5 xs"
  by (simp add: slice_def toIntegerOrInfinity_def relativeIndex_def Let_def min_def)

lemma categoriesData_entries:
  assumes "e \<in> set (categoriesData channels)"
  shows "\<exists>k \<in> fst ` set (cat_events channels).
            e = category_out_of (cat_entry_of k (cat_events channels))"
proof -
  let ?m = "build_categoryMap channels" and ?evs = "cat_events channels"
  have inv: "cat_inv ?m ?evs" by (rule cat_inv_build)
  from assms obtain ce where e: "e = category_out_of ce" and "ce \<in> snd ` set ?m"
    by (auto simp: categoriesData_def)
  then obtain k where kc: "(k, ce) \<in> set ?m" by auto
  from inv have "distinct (map fst ?m)" by (simp add: cat_inv_def)
  with kc have s: "map_of ?m k = Some ce" by simp
  from inv have "map_of ?m k =
      (if k \<in> fst ` set ?evs then Some (cat_entry_of k ?evs) else None)"
    by (simp add: cat_inv_def)
  with s have "(if k \<in> fst ` set ?evs then Some (cat_entry_of k ?evs) else None) = Some ce"
    by (simp only:)
  then have "k \<in> fst ` set ?evs" and "ce = cat_entry_of k ?evs"
    by (simp_all split: if_splits)
  with e show ?thesis by blast
qed

lemma length_filter_category_events:
  "length (filter (\<lambda>ev. fst ev = k) (map (\<lambda>k'. (k', c)) ks)) = count_list ks k"
  by (induction ks) simp_all

lemma length_cat_refs_events:
  "length (cat_refs k (cat_events channels)) =
     sum_list (map (\<lambda>c. count_list (ch_categories c) k) channels)"
proof (induction channels)
  case Nil
  show ?case by (simp add: cat_refs_def cat_events_def)
next
  case (Cons c channels)
  have "length (cat_refs k (cat_events (c # channels))) =
      length (filter (\<lambda>ev. fst ev = k) (map (\<lambda>k'. (k', c)) (ch_categories c)))
      + length (cat_refs k (cat_events channels))"
    by (simp add: cat_refs_def cat_events_def)
  then show ?case
    by (simp only: length_filter_category_events Cons.IH list.map sum_list.Cons)
qed

lemma refs_category_events:
  "map (\<lambda>ev. channel_ref_of (snd ev)) (filter (\<lambda>ev. fst ev = k) (map (\<lambda>k'. (k', c)) ks))
     = replicate (count_list ks k) (channel_ref_of c)"
  by (induction ks) simp_all

lemma cat_refs_events_general:
  "cat_refs k (cat_events channels) =
     concat (map (\<lambda>c. replicate (count_list (ch_categories c) k) (channel_ref_of c)) channels)"
proof (induction channels)
  case Nil
  show ?case by (simp add: cat_refs_def cat_events_def)
next
  case (Cons c channels)
  have "cat_refs k (cat_events (c # channels)) =
      map (\<lambda>ev. channel_ref_of (snd ev))
        (filter (\<lambda>ev. fst ev = k) (map (\<lambda>k'. (k', c)) (ch_categories c)))
      @ cat_refs k (cat_events channels)"
    by (simp add: cat_refs_def cat_events_def)
  then show ?case
    by (simp only: refs_category_events Cons.IH list.map concat.simps)
qed

text \<open>
  C9, as the code has it. Every entry of the categories response reports as
  \<open>channelCount\<close> the number of times its category is listed over all channels, a channel
  that lists it twice counting twice, and as \<open>topChannels\<close> the first 5 of these listings
  in dataset order, as \<open>{id, name, country}\<close>. When no channel lists a category more than
  once, \<open>channelCount\<close> is the number of channels listing the category and \<open>topChannels\<close>
  holds the first \<open>min(channelCount, 5)\<close> of these channels in dataset order: the list is
  capped at 5, the count is not.
\<close>

theorem categories_counts:
  "meth \<noteq> ''OPTIONS'' \<longrightarrow>
     (\<forall>e \<in> set (cat_data (body (categories_handler now meth channels))).
        cat_channelCount e
          = sum_list (map (\<lambda>c. count_list (ch_categories c) (cat_name e)) channels)
      \<and> cat_topChannels e
          = take 5 (concat (map (\<lambda>c. replicate (count_list (ch_categories c) (cat_name e))
                                       (channel_ref_of c)) channels))
      \<and> ((\<forall>c \<in> set channels. distinct (ch_categories c)) \<longrightarrow>
            cat_channelCount e
              = length (filter (\<lambda>c. cat_name e \<in> set (ch_categories c)) channels)
          \<and> cat_topChannels e
              = take (min (cat_channelCount e) 5)
                  (map channel_ref_of
                     (filter (\<lambda>c. cat_name e \<in> set (ch_categories c)) channels))))"
proof (intro impI ballI conjI)
  fix e
  assume m: "meth \<noteq> ''OPTIONS''"
    and e: "e \<in> set (cat_data (body (categories_handler now meth channels)))"
  from m e have "e \<in> set (categoriesData channels)"
    by (simp add: categories_handler_def)
  then obtain k where e: "e = category_out_of (cat_entry_of k (cat_events channels))"
    using categoriesData_entries by blast
  have n: "cat_name e = k"
    by (simp add: e category_out_of_def cat_entry_of_def)
  have c: "cat_channelCount e = length (cat_refs k (cat_events channels))"
    by (simp add: e category_out_of_def cat_entry_of_def)
  have t: "cat_topChannels e = take 5 (cat_refs k (cat_events channels))"
    by (simp add: e category_out_of_def cat_entry_of_def slice_first_5)
  show "cat_channelCount e
          = sum_list (map (\<lambda>c. count_list (ch_categories c) (cat_name e)) channels)"
    by (simp add: n c length_cat_refs_events)
  show "cat_topChannels e
          = take 5 (concat (map (\<lambda>c. replicate (count_list (ch_categories c) (cat_name e))
                                       (channel_ref_of c)) channels))"
    by (simp only: n t cat_refs_events_general)
  assume d: "\<forall>c \<in> set channels. distinct (ch_categories c)"
  let ?sel = "map channel_ref_of (filter (\<lambda>c. k \<in> set (ch_categories c)) channels)"
  have refs: "cat_refs k (cat_events channels) = ?sel"
    by (rule cat_refs_events [OF d])
  show "cat_channelCount e
          = length (filter (\<lambda>c. cat_name e \<in> set (ch_categories c)) channels)"
    by (simp add: n c refs)
  have "take (min (length ?sel) 5) ?sel = take 5 ?sel"
    by (simp add: min_def)
  then show "cat_topChannels e
          = take (min (cat_channelCount e) 5)
              (map channel_ref_of (filter (\<lambda>c. cat_name e \<in> set (ch_categories c)) channels))"
    by (simp add: n c t refs)
qed

theorem categories_counts_counterexample:
  "length ex_dup = 2
   \<and> map cat_name (cat_data (body (categories_handler ''t'' ''GET'' ex_dup))) = [''news'']
   \<and> map cat_channelCount (cat_data (body (categories_handler ''t'' ''GET'' ex_dup))) = [3]
   \<and> map cat_topChannels (cat_data (body (categories_handler ''t'' ''GET'' ex_dup)))
       = [map channel_ref_of [ex_channel_bbcnews, ex_channel_twice, ex_channel_twice]]"
  by code_simp

theorem categories_counts_witness:
  "map cat_name (cat_data (body (categories_handler ''t'' ''GET'' ex_news))) = [''news'']
   \<and> map cat_channelCount (cat_data (body (categories_handler ''t'' ''GET'' ex_news))) = [6]
   \<and> map cat_topChannels (cat_data (body (categories_handler ''t'' ''GET'' ex_news)))
       = [map channel_ref_of (take 5 ex_news)]"
proof -
  let ?E = "\<lparr>cat_name = ''news'', cat_displayName = ''News'', cat_channelCount = 6,
      cat_topChannels = map channel_ref_of (take 5 ex_news)\<rparr>"
  have m: "''GET'' \<noteq> ''OPTIONS''" by simp
  have d: "\<forall>c \<in> set ex_news. distinct (ch_categories c)"
    by (simp add: ex_news_def ex_channel_bbcnews_def)
  have D: "cat_data (body (categories_handler ''t'' ''GET'' ex_news)) = [?E]"
    by code_simp
  have f: "filter (\<lambda>c. ''news'' \<in> set (ch_categories c)) ex_news = ex_news"
    by (simp add: ex_news_def ex_channel_bbcnews_def)
  have l: "length ex_news = 6" by (simp add: ex_news_def)
  from categories_counts [of "''GET''" "''t''" ex_news] m d
  have "\<forall>e \<in> set (cat_data (body (categories_handler ''t'' ''GET'' ex_news))).
      cat_channelCount e = length (filter (\<lambda>c. cat_name e \<in> set (ch_categories c)) ex_news)
      \<and> cat_topChannels e = take (min (cat_channelCount e) 5)
          (map channel_ref_of (filter (\<lambda>c. cat_name e \<in> set (ch_categories c)) ex_news))"
    by blast
  then have "cat_channelCount ?E = length ex_news
      \<and> cat_topChannels ?E = take (min (cat_channelCount ?E) 5) (map channel_ref_of ex_news)"
    unfolding D by (simp add: f)
  with D l show ?thesis by (simp add: take_map)
qed

end
